theory Spec2Isabelle
  imports Main "HOL-Library.Multiset" "HOL-Library.Product_Lexorder"
begin

section \<open>Data model\<close>

text \<open>
  A task is a JSON object (a Python \<open>dict\<close>) in which any of the seven attributes
  may be absent: every field is an option, \<open>None\<close> for an absent key. Ids, owners,
  priorities and statuses are strings, as the code compares them.
\<close>

record task =
  t_id :: "string option"
  t_name :: "string option"
  t_priority :: "string option"
  t_description :: "string option"
  t_dependencies :: "string list option"
  t_status :: "string option"
  t_owner :: "string option"

text \<open>
  A goal graph is a \<open>dict\<close> whose key \<open>"tasks"\<close> may be absent (\<open>None\<close>) or
  holds a list of task dictionaries. A goal-graph file holds text that \<open>json.load\<close>
  rejects, or the JSON of a goal graph: \<open>json.dump\<close> followed by \<open>json.load\<close>
  gives the graph back.
\<close>

type_synonym goal_graph = "task list option"

datatype file_content = Unparsable | Json goal_graph

section \<open>Lock manager (src/utils/file\_utils.py)\<close>

text \<open>
  Paths and owner ids are strings. A point in time is a \<open>datetime\<close>, here the
  integer count of microseconds since \<open>datetime.min\<close> (0001-01-01T00:00:00), which
  for a \<open>datetime\<close> lies between 0 and \<open>dt_max\<close> (9999-12-31T23:59:59.999999). A
  timeout is an integer number of seconds. \<open>isoformat\<close> followed by
  \<open>fromisoformat\<close> gives the same instant back, so the record stores the instant
  itself; the stored times and the clock readings are datetimes.
\<close>

type_synonym path = string

record lock_info =
  owner_id :: string
  time :: int
  timeout :: int
  exclusive :: bool

text \<open>
  The content of one \<open>.lock\<close> file: text that \<open>json.load\<close> rejects, or a JSON
  object from resource paths to lock records. Records are those \<open>acquire\<close> writes,
  with all four keys.
\<close>

datatype lock_file = Corrupt | Store "path \<rightharpoonup> lock_info"

text \<open>
  The part of the machine the lock manager works on. \<open>lock_files\<close> is the content of
  \<open>FILE_LOCK_DIR\<close>, a lock file being named by \<open>hash(str(path))\<close>, here the field
  \<open>path_hash\<close>: the string hash of the process that runs the calls, which Python
  salts per process, so that another process names the lock file of the same path
  differently. \<open>flock_busy\<close> holds the lock files on which another process holds
  \<open>flock\<close> at the moment: there \<open>fcntl.flock(f, LOCK_EX | LOCK_NB)\<close> raises an
  \<open>IOError\<close>. \<open>files\<close> holds the goal-graph files (section on the store below).
\<close>

datatype error =
    FileLockException_locked string
  | FileLockException_busy
  | OverflowError
  | JSONDecodeError
  | ValueError string
  | AttributeError

definition is_ValueError :: "error \<Rightarrow> bool" where
  "is_ValueError e = (case e of ValueError _ \<Rightarrow> True | _ \<Rightarrow> False)"

definition is_FileLockException :: "error \<Rightarrow> bool" where
  "is_FileLockException e =
     (case e of FileLockException_locked _ \<Rightarrow> True
              | FileLockException_busy \<Rightarrow> True
              | _ \<Rightarrow> False)"

record world =
  path_hash :: "path \<Rightarrow> int"
  lock_files :: "int \<rightharpoonup> lock_file"
  flock_busy :: "int set"
  files :: "path \<rightharpoonup> file_content"

text \<open>The object \<open>FileLock(file_path, owner_id, timeout)\<close>.\<close>

record FileLock =
  fl_file_path :: path
  fl_owner_id :: string
  fl_timeout :: int
  fl_lock_data :: "lock_info option"
  fl_locked :: bool

definition FileLock_init :: "path \<Rightarrow> string \<Rightarrow> int \<Rightarrow> FileLock" where
  "FileLock_init file_path owner tmo =
     \<lparr>fl_file_path = file_path, fl_owner_id = owner, fl_timeout = tmo,
      fl_lock_data = None, fl_locked = False\<rparr>"

definition lock_file_path :: "world \<Rightarrow> FileLock \<Rightarrow> int" where
  "lock_file_path w self = path_hash w (fl_file_path self)"

text \<open>
  \<open>lock_time + timedelta(seconds=lock_info["timeout"])\<close>. \<open>timedelta\<close> holds
  at most 999999999 days in either direction and raises \<open>OverflowError\<close> beyond;
  the sum raises \<open>OverflowError\<close> when it is not a \<open>datetime\<close>. \<open>expiry\<close>
  is the sum as a plain integer, \<open>expires_at\<close> what the code computes.
\<close>

definition dt_max :: int where
  "dt_max = 315537897599999999"

definition datetime_ok :: "int \<Rightarrow> bool" where
  "datetime_ok t = (0 \<le> t \<and> t \<le> dt_max)"

definition timedelta_ok :: "int \<Rightarrow> bool" where
  "timedelta_ok seconds = (- 999999999 \<le> seconds div 86400 \<and> seconds div 86400 \<le> 999999999)"

definition expiry :: "lock_info \<Rightarrow> int" where
  "expiry lock_info' = time lock_info' + timeout lock_info' * 1000000"

definition representable :: "lock_info \<Rightarrow> bool" where
  "representable lock_info' =
     (timedelta_ok (timeout lock_info') \<and> datetime_ok (expiry lock_info'))"

definition expires_at :: "lock_info \<Rightarrow> error + int" where
  "expires_at lock_info' =
     (if \<not> timedelta_ok (timeout lock_info') then Inl OverflowError
      else if \<not> datetime_ok (expiry lock_info') then Inl OverflowError
      else Inr (expiry lock_info'))"

text \<open>\<open>json.load(f)\<close> with \<open>except json.JSONDecodeError: data = {}\<close>.\<close>

definition load_data :: "lock_file \<Rightarrow> (path \<rightharpoonup> lock_info)" where
  "load_data lf = (case lf of Corrupt \<Rightarrow> Map.empty | Store d \<Rightarrow> d)"

text \<open>
  The check of an existing record in \<open>acquire\<close> (lines 81 to 99): the exception it
  raises, or nothing. The expiry is computed before anything else is looked at, so its
  \<open>OverflowError\<close> comes whoever owns the record.
\<close>

definition check_existing ::
  "FileLock \<Rightarrow> bool \<Rightarrow> int \<Rightarrow> (path \<rightharpoonup> lock_info) \<Rightarrow> error + unit" where
  "check_existing self excl now data =
     (case data (fl_file_path self) of
        None \<Rightarrow> Inr ()
      | Some lock_info' \<Rightarrow>
          (case expires_at lock_info' of
             Inl e \<Rightarrow> Inl e
           | Inr expires \<Rightarrow>
               if now < expires then
                 (if owner_id lock_info' \<noteq> fl_owner_id self then
                    (if excl \<or> exclusive lock_info'
                     then Inl (FileLockException_locked (owner_id lock_info'))
                     else Inr ())
                  else Inr ())
               else Inr ()))"

text \<open>
  \<open>FileLock.acquire\<close>. The clock is read once per call (\<open>now\<close>). The result is the
  raised exception or the updated object (the method then returns \<open>True\<close>), and the
  world the call leaves. A lock file that does not exist is first created with content
  \<open>{}\<close>; that write stays when the call raises afterwards. A failing \<open>flock\<close> is
  an \<open>IOError\<close>, which the handler turns into \<open>FileLockException\<close>; the other
  exceptions pass the handler unchanged.
\<close>

definition acquire ::
  "FileLock \<Rightarrow> bool \<Rightarrow> int \<Rightarrow> world \<Rightarrow> (error + FileLock) \<times> world" where
  "acquire self excl now w =
     (let lf = lock_file_path w self;
          w1 = (if lock_files w lf = None
                then w\<lparr>lock_files := (lock_files w)(lf \<mapsto> Store Map.empty)\<rparr> else w)
      in if lf \<in> flock_busy w1 then (Inl FileLockException_busy, w1)
         else
           let data = load_data (the (lock_files w1 lf)) in
           (case check_existing self excl now data of
              Inl e \<Rightarrow> (Inl e, w1)
            | Inr u \<Rightarrow>
                let lock_data = \<lparr>owner_id = fl_owner_id self, time = now,
                                 timeout = fl_timeout self, exclusive = excl\<rparr>;
                    data' = data(fl_file_path self \<mapsto> lock_data)
                in (Inr (self\<lparr>fl_lock_data := Some lock_data, fl_locked := True\<rparr>),
                    w1\<lparr>lock_files := (lock_files w1)(lf \<mapsto> Store data')\<rparr>)))"

text \<open>
  \<open>FileLock.release\<close>: the returned boolean, the object and the world. A lock file
  that does not exist makes \<open>open\<close> raise \<open>FileNotFoundError\<close>, an \<open>IOError\<close>, as
  a busy lock file does: both return \<open>False\<close>.
\<close>

definition release :: "FileLock \<Rightarrow> world \<Rightarrow> bool \<times> FileLock \<times> world" where
  "release self w =
     (if \<not> fl_locked self then (False, self, w)
      else
        let lf = lock_file_path w self in
        case lock_files w lf of
          None \<Rightarrow> (False, self, w)
        | Some content \<Rightarrow>
            (if lf \<in> flock_busy w then (False, self, w)
             else
               let data = load_data content in
               (case data (fl_file_path self) of
                  Some lock_info' \<Rightarrow>
                    if owner_id lock_info' = fl_owner_id self
                    then (True, self\<lparr>fl_locked := False\<rparr>,
                          w\<lparr>lock_files :=
                              (lock_files w)(lf \<mapsto> Store (data(fl_file_path self := None)))\<rparr>)
                    else (False, self, w)
                | None \<Rightarrow> (True, self\<lparr>fl_locked := False\<rparr>, w))))"

text \<open>
  The record stored for the resource of \<open>self\<close> in the lock file that the process
  of \<open>self\<close> names. A record is live at \<open>now\<close> when \<open>now\<close> is before its time
  plus its timeout (the sum as a plain integer). A request conflicts when the stored
  record is live, names another owner, and the request or the record is exclusive.
  \<open>expiry_overflow\<close>: a record is stored whose expiry the code cannot compute.
\<close>

definition stored_record :: "world \<Rightarrow> FileLock \<Rightarrow> lock_info option" where
  "stored_record w self =
     (case lock_files w (lock_file_path w self) of
        None \<Rightarrow> None
      | Some content \<Rightarrow> load_data content (fl_file_path self))"

definition live :: "int \<Rightarrow> lock_info \<Rightarrow> bool" where
  "live now r = (now < expiry r)"

definition gate_busy :: "world \<Rightarrow> FileLock \<Rightarrow> bool" where
  "gate_busy w self = (lock_file_path w self \<in> flock_busy w)"

definition expiry_overflow :: "world \<Rightarrow> FileLock \<Rightarrow> bool" where
  "expiry_overflow w self =
     (case stored_record w self of None \<Rightarrow> False | Some r \<Rightarrow> \<not> representable r)"

definition conflicting :: "int \<Rightarrow> FileLock \<Rightarrow> bool \<Rightarrow> world \<Rightarrow> bool" where
  "conflicting now self excl w =
     (case stored_record w self of
        None \<Rightarrow> False
      | Some r \<Rightarrow> live now r \<and> owner_id r \<noteq> fl_owner_id self \<and> (excl \<or> exclusive r))"

text \<open>
  The context manager \<open>file_lock(file_path, owner_id, exclusive, timeout)\<close>:
  \<open>acquire\<close>, then the body of the \<open>with\<close> statement, then \<open>release\<close> in the
  \<open>finally\<close> clause, which runs too when \<open>acquire\<close> or the body raised.
\<close>

definition file_lock ::
  "path \<Rightarrow> string \<Rightarrow> bool \<Rightarrow> int \<Rightarrow> int \<Rightarrow> (world \<Rightarrow> (error + 'a) \<times> world) \<Rightarrow> world
     \<Rightarrow> (error + 'a) \<times> world" where
  "file_lock file_path owner excl tmo now body w =
     (let lock = FileLock_init file_path owner tmo in
      case acquire lock excl now w of
        (Inl e, w1) \<Rightarrow> (case release lock w1 of (_, _, w2) \<Rightarrow> (Inl e, w2))
      | (Inr lock', w1) \<Rightarrow>
          (case body w1 of
             (r, w2) \<Rightarrow> (case release lock' w2 of (_, _, w3) \<Rightarrow> (r, w3))))"

section \<open>Task graph store (src/agents/tasker\_agent.py)\<close>

text \<open>\<open>str(n)\<close> for a natural number, used for the default id \<open>str(i + 1)\<close>.\<close>

definition digit_char :: "nat \<Rightarrow> char" where
  "digit_char d = ''0123456789'' ! d"

function str_of_nat :: "nat \<Rightarrow> string" where
  "str_of_nat n =
     (if n < 10 then [digit_char n] else str_of_nat (n div 10) @ [digit_char (n mod 10)])"
  by pat_completeness auto
termination
  by (relation "measure id") auto

text \<open>
  The loop body of \<open>_validate_goal_graph\<close> for the task at index \<open>i\<close>: each absent
  attribute gets its default, in the order of the source (the default name reads the
  id, which is present by then).
\<close>

definition fill_defaults :: "nat \<Rightarrow> task \<Rightarrow> task" where
  "fill_defaults i task0 =
     (let t1 = (if t_id task0 = None then task0\<lparr>t_id := Some (str_of_nat (i + 1))\<rparr> else task0);
          t2 = (if t_name t1 = None then t1\<lparr>t_name := Some (''Task '' @ the (t_id t1))\<rparr> else t1);
          t3 = (if t_priority t2 = None then t2\<lparr>t_priority := Some ''Medium''\<rparr> else t2);
          t4 = (if t_description t3 = None
                then t3\<lparr>t_description := Some ''No description provided.''\<rparr> else t3);
          t5 = (if t_dependencies t4 = None then t4\<lparr>t_dependencies := Some []\<rparr> else t4);
          t6 = (if t_status t5 = None then t5\<lparr>t_status := Some ''Not Started''\<rparr> else t5);
          t7 = (if t_owner t6 = None then t6\<lparr>t_owner := Some ''Unassigned''\<rparr> else t6)
      in t7)"

text \<open>
  The private method \<open>_validate_goal_graph\<close>, the normalisation of the spec (the
  public \<open>validate_goal_graph\<close>, which asks the language model, is not modelled): a
  missing \<open>"tasks"\<close> key becomes the empty list, then every task is filled. The
  leading underscore of the private names is dropped.
\<close>

definition validate_goal_graph :: "goal_graph \<Rightarrow> goal_graph" where
  "validate_goal_graph g =
     (let tasks = (case g of None \<Rightarrow> [] | Some ts \<Rightarrow> ts)
      in Some (map (\<lambda>(i, task0). fill_defaults i task0) (enumerate 0 tasks)))"

text \<open>\<open>with open(file_path, 'w') as f: json.dump(goal_graph, f, indent=2)\<close>.\<close>

definition write_graph :: "path \<Rightarrow> goal_graph \<Rightarrow> world \<Rightarrow> (error + unit) \<times> world" where
  "write_graph file_path g w = (Inr (), w\<lparr>files := (files w)(file_path \<mapsto> Json g)\<rparr>)"

text \<open>
  \<open>_save_goal_graph\<close>, the persist of the spec. \<open>self_id\<close> is the agent's id,
  \<open>dir\<close> the directory of the goal graphs, \<open>stamp\<close> the decimal text of
  \<open>int(os.path.getmtime(dir))\<close> (or \<open>0\<close>), \<open>tmo\<close> the configured
  \<open>FILE_LOCK_TIMEOUT\<close>. The two writes are in one \<open>try\<close> whose
  \<open>except Exception\<close> only logs, so the function returns nothing but the world: an
  exception in the first \<open>with\<close> skips the second.
\<close>

definition save_goal_graph ::
  "string \<Rightarrow> path \<Rightarrow> string \<Rightarrow> int \<Rightarrow> goal_graph \<Rightarrow> int \<Rightarrow> world \<Rightarrow> world" where
  "save_goal_graph self_id dir stamp tmo g now w =
     (let file_path = dir @ ''/goal_graph_'' @ stamp @ ''.json'';
          latest_path = dir @ ''/latest.json''
      in case file_lock file_path self_id True tmo now (write_graph file_path g) w of
           (Inl e, w1) \<Rightarrow> w1
         | (Inr u, w1) \<Rightarrow>
             (case file_lock latest_path self_id True tmo now (write_graph latest_path g) w1 of
                (r, w2) \<Rightarrow> w2))"

text \<open>\<open>with open(file_path, 'r') as f: return json.load(f)\<close>, on a file that exists.\<close>

definition read_graph :: "path \<Rightarrow> world \<Rightarrow> (error + goal_graph) \<times> world" where
  "read_graph file_path w =
     (case the (files w file_path) of
        Unparsable \<Rightarrow> (Inl JSONDecodeError, w)
      | Json g \<Rightarrow> (Inr g, w))"

text \<open>
  \<open>load_goal_graph\<close>. The \<open>except\<close> clause names \<open>json.JSONDecodeError\<close> and
  \<open>IOError\<close> only; \<open>FileLockException\<close> derives from \<open>Exception\<close> directly, so
  the one \<open>file_lock\<close> raises goes on to the caller.
\<close>

definition load_goal_graph ::
  "string \<Rightarrow> path \<Rightarrow> string \<Rightarrow> int \<Rightarrow> int \<Rightarrow> world \<Rightarrow> (error + goal_graph) \<times> world" where
  "load_goal_graph self_id dir filename tmo now w =
     (let file_path = dir @ ''/'' @ filename
      in if files w file_path = None then (Inr (Some []), w)
         else
           case file_lock file_path self_id False tmo now (read_graph file_path) w of
             (Inl JSONDecodeError, w1) \<Rightarrow> (Inr (Some []), w1)
           | (Inl e, w1) \<Rightarrow> (Inl e, w1)
           | (Inr g, w1) \<Rightarrow> (Inr g, w1))"

section \<open>Scheduler and task state machine (src/utils/agent\_manager.py)\<close>

text \<open>
  The fields of \<open>AgentManager\<close> the scheduler reads and writes. \<open>coder_agents\<close>
  holds the ids of the coder agents in pool order, \<open>qualitator_agent\<close> tells whether
  that agent is initialised, \<open>goal_graph\<close> is \<open>None\<close> for Python's \<open>None\<close>. The
  keys of \<open>tasks_assigned\<close> are what \<open>task.get("id")\<close> returns, so \<open>None\<close> is a
  possible key; the keys of \<open>tasks_completed\<close> are the ids passed to the methods.
\<close>

record manager =
  coder_agents :: "string list"
  qualitator_agent :: bool
  goal_graph :: "goal_graph option"
  goal_graph_approved :: bool
  tasks_assigned :: "string option \<rightharpoonup> string"
  tasks_completed :: "string \<rightharpoonup> string"
  files_modified :: "string set"
  current_stage :: string

definition graph_tasks :: "goal_graph \<Rightarrow> task list" where
  \<comment> \<open>\<open>goal_graph.get("tasks", [])\<close>\<close>
  "graph_tasks g = (case g of None \<Rightarrow> [] | Some ts \<Rightarrow> ts)"

definition get_status :: "task \<Rightarrow> string" where
  \<comment> \<open>\<open>task.get("status", "Not Started")\<close>\<close>
  "get_status t = (case t_status t of None \<Rightarrow> ''Not Started'' | Some s \<Rightarrow> s)"

definition get_dependencies :: "task \<Rightarrow> string list" where
  \<comment> \<open>\<open>task.get("dependencies", [])\<close>\<close>
  "get_dependencies t = (case t_dependencies t of None \<Rightarrow> [] | Some ds \<Rightarrow> ds)"

definition get_priority :: "task \<Rightarrow> string" where
  \<comment> \<open>\<open>task.get("priority", "Medium")\<close>\<close>
  "get_priority t = (case t_priority t of None \<Rightarrow> ''Medium'' | Some p \<Rightarrow> p)"

text \<open>The inner loop over the dependencies, with its \<open>break\<close>.\<close>

fun all_deps_completed :: "(string \<rightharpoonup> string) \<Rightarrow> string list \<Rightarrow> bool" where
  "all_deps_completed completed [] = True"
| "all_deps_completed completed (dep_id # rest) =
     (if completed dep_id \<noteq> Some ''Completed'' then False
      else all_deps_completed completed rest)"

text \<open>The body of the filtering loop: whether the task is appended to \<open>available_tasks\<close>.\<close>

definition is_available :: "manager \<Rightarrow> task \<Rightarrow> bool" where
  "is_available st t =
     (let task_id = t_id t; status = get_status t; dependencies = get_dependencies t
      in if task_id \<in> dom (tasks_assigned st) \<or> status = ''Completed'' then False
         else (dependencies = [] \<or> all_deps_completed (tasks_completed st) dependencies))"

text \<open>
  The available tasks, each with its index in the graph: the Python list holds
  references to the dictionaries of the graph, which the assignment loop mutates.
\<close>

definition available_tasks :: "manager \<Rightarrow> task list \<Rightarrow> (nat \<times> task) list" where
  "available_tasks st tasks = filter (\<lambda>(idx, t). is_available st t) (enumerate 0 tasks)"

definition priority_map :: "string \<Rightarrow> int" where
  \<comment> \<open>\<open>priority_map.get(p, 0)\<close>\<close>
  "priority_map p =
     (if p = ''High'' then 3 else if p = ''Medium'' then 2 else if p = ''Low'' then 1 else 0)"

definition sort_key_of :: "task \<Rightarrow> int \<times> int" where
  "sort_key_of t = (priority_map (get_priority t), - int (length (get_dependencies t)))"

text \<open>
  \<open>available_tasks.sort(key=...)\<close>: ascending in the key, tuples compared
  lexicographically, stable. \<^const>\<open>sort_key\<close> is the stable insertion sort.
\<close>

definition sort_available :: "(nat \<times> task) list \<Rightarrow> (nat \<times> task) list" where
  "sort_available av = sort_key (\<lambda>(idx, t). sort_key_of t) av"

text \<open>
  The round-robin loop \<open>for i, task in enumerate(available_tasks)\<close>, on the
  assignment dictionary, \<open>tasks_assigned\<close> and the tasks of the graph.
\<close>

fun assign_loop ::
  "string list \<Rightarrow> nat \<Rightarrow> (nat \<times> task) list
     \<Rightarrow> (string \<rightharpoonup> string option list) \<times> (string option \<rightharpoonup> string) \<times> task list
     \<Rightarrow> (string \<rightharpoonup> string option list) \<times> (string option \<rightharpoonup> string) \<times> task list" where
  "assign_loop agents i [] s = s"
| "assign_loop agents i ((idx, task0) # rest) (assignments, assigned, tasks) =
     (let agent_id = agents ! (i mod length agents);
          task_id = t_id task0
      in assign_loop agents (Suc i) rest
           (assignments(agent_id \<mapsto> the (assignments agent_id) @ [task_id]),
            assigned(task_id \<mapsto> agent_id),
            tasks[idx := (tasks ! idx)\<lparr>t_owner := Some agent_id,
                                        t_status := Some ''In Progress''\<rparr>]))"

definition init_assignments :: "string list \<Rightarrow> (string \<rightharpoonup> string option list)" where
  \<comment> \<open>\<open>{agent.id: [] for agent in self.coder_agents}\<close>\<close>
  "init_assignments agents = (\<lambda>a. if a \<in> set agents then Some [] else None)"

text \<open>
  \<open>assign_tasks\<close>: the assignment dictionary and the manager after the call, or the
  \<open>ValueError\<close> of one of the three checks. A graph without the key \<open>"tasks"\<close> gives
  a fresh empty list and stays as it is.
\<close>

definition assign_tasks ::
  "manager \<Rightarrow> error + ((string \<rightharpoonup> string option list) \<times> manager)" where
  "assign_tasks st =
     (if coder_agents st = [] then Inl (ValueError ''No Coder agents are initialized'')
      else case goal_graph st of
        None \<Rightarrow> Inl (ValueError ''No Goal Graph exists'')
      | Some g \<Rightarrow>
          if \<not> goal_graph_approved st then Inl (ValueError ''Goal Graph is not approved'')
          else
            let tasks = graph_tasks g;
                av = sort_available (available_tasks st tasks)
            in case assign_loop (coder_agents st) 0 av
                      (init_assignments (coder_agents st), tasks_assigned st, tasks) of
                 (assignments, assigned, tasks') \<Rightarrow>
                   Inr (assignments,
                        st\<lparr>goal_graph := Some (case g of None \<Rightarrow> None | Some ts \<Rightarrow> Some tasks'),
                           tasks_assigned := assigned,
                           current_stage := ''tasks_assigned''\<rparr>))"

text \<open>
  The lookup \<open>for t in tasks: if str(t.get("id")) == str(task_id)\<close>: the index of
  the first match. \<open>str(None)\<close> is the text \<open>None\<close>.
\<close>

definition str_of_id :: "string option \<Rightarrow> string" where
  "str_of_id i = (case i of None \<Rightarrow> ''None'' | Some s \<Rightarrow> s)"

fun find_task :: "string \<Rightarrow> nat \<Rightarrow> task list \<Rightarrow> nat option" where
  "find_task task_id k [] = None"
| "find_task task_id k (t # ts) =
     (if str_of_id (t_id t) = task_id then Some k else find_task task_id (Suc k) ts)"

text \<open>
  \<open>implement_task\<close>. The coder's report is an input; of it the manager reads
  \<open>files_modified\<close>, absent (\<open>None\<close>) or a list.
\<close>

definition implement_task ::
  "manager \<Rightarrow> string \<Rightarrow> string list option \<Rightarrow> error + manager" where
  "implement_task st task_id report_files =
     (case tasks_assigned st (Some task_id) of
        None \<Rightarrow> Inl (ValueError ''Task is not assigned'')
      | Some agent_id \<Rightarrow>
          (if agent_id \<notin> set (coder_agents st) then Inl (ValueError ''No Coder agent found'')
           else
             (case goal_graph st of
                None \<Rightarrow> Inl AttributeError
              | Some g \<Rightarrow>
                  (case find_task task_id 0 (graph_tasks g) of
                     None \<Rightarrow> Inl (ValueError ''No task found'')
                   | Some k \<Rightarrow>
                       let modified = (case report_files of None \<Rightarrow> [] | Some fs \<Rightarrow> fs);
                           ts = graph_tasks g
                       in Inr (st\<lparr>files_modified := files_modified st \<union> set modified,
                                  tasks_completed :=
                                    (tasks_completed st)(task_id \<mapsto> ''Needs Review''),
                                  goal_graph :=
                                    Some (Some (ts[k := (ts ! k)\<lparr>t_status :=
                                                                    Some ''Needs Review''\<rparr>])),
                                  current_stage := ''task_'' @ task_id @ ''_implemented''\<rparr>)))))"

text \<open>
  \<open>verify_fixes\<close>. The qualitator's verdict is an input: \<open>all_fixed\<close>, absent or a
  boolean, read with \<open>get("all_fixed", False)\<close>.
\<close>

definition verify_fixes :: "manager \<Rightarrow> string \<Rightarrow> bool option \<Rightarrow> error + manager" where
  "verify_fixes st task_id all_fixed =
     (if \<not> qualitator_agent st then Inl (ValueError ''Qualitator agent is not initialized'')
      else if tasks_completed st task_id \<noteq> Some ''Needs Review''
      then Inl (ValueError ''Task is not ready for verification'')
      else case goal_graph st of
        None \<Rightarrow> Inl AttributeError
      | Some g \<Rightarrow>
          (case find_task task_id 0 (graph_tasks g) of
             None \<Rightarrow> Inl (ValueError ''No task found'')
           | Some k \<Rightarrow>
               let ts = graph_tasks g;
                   verdict = (if all_fixed = Some True then ''Completed'' else ''Needs Fixes'');
                   stage = (if all_fixed = Some True then ''task_'' @ task_id @ ''_completed''
                            else ''task_'' @ task_id @ ''_needs_fixes'')
               in Inr (st\<lparr>tasks_completed := (tasks_completed st)(task_id \<mapsto> verdict),
                          goal_graph := Some (Some (ts[k := (ts ! k)\<lparr>t_status := Some verdict\<rparr>])),
                          current_stage := stage\<rparr>)))"


text \<open>
  A request by \<open>owner\<close> on the path \<open>p\<close> is let through at \<open>now\<close>: the lock
  file of \<open>p\<close> is not busy, the expiry of a stored record can be computed, and no
  live foreign record conflicts with the request.
\<close>

definition lock_free :: "int \<Rightarrow> path \<Rightarrow> string \<Rightarrow> int \<Rightarrow> bool \<Rightarrow> world \<Rightarrow> bool" where
  "lock_free now p owner tmo excl w =
     (\<not> gate_busy w (FileLock_init p owner tmo)
      \<and> \<not> expiry_overflow w (FileLock_init p owner tmo)
      \<and> \<not> conflicting now (FileLock_init p owner tmo) excl w)"

text \<open>
  All the task ids an assignment dictionary hands out, over the workers of the pool,
  as a multiset: an id counts once for every list position it occupies.
\<close>

definition assigned_ids ::
  "string list \<Rightarrow> (string \<rightharpoonup> string option list) \<Rightarrow> string option multiset" where
  "assigned_ids agents assignments = (\<Sum>a\<in>set agents. mset (the (assignments a)))"

section \<open>Concrete states\<close>

text \<open>
  States on which the theorems below are evaluated. In \<open>w_free\<close> no lock file
  exists and no lock file is busy; the lock file of a path is named by the length of
  the path. \<open>w_held owner excl\<close> holds one record on \<open>a.txt\<close>, taken at time 0 with
  a timeout of 30 seconds.
\<close>

definition w_free :: world where
  "w_free = \<lparr>path_hash = (\<lambda>p. int (length p)), lock_files = Map.empty,
             flock_busy = {}, files = Map.empty\<rparr>"

definition w_held :: "string \<Rightarrow> bool \<Rightarrow> world" where
  "w_held owner excl = w_free\<lparr>lock_files :=
      [5 \<mapsto> Store [''a.txt'' \<mapsto>
             \<lparr>owner_id = owner, time = 0, timeout = 30, exclusive = excl\<rparr>]]\<rparr>"

text \<open>
  A task with an id and a name only, and a world in which \<open>graphs/latest.json\<close>
  exists with a valid empty graph while \<open>coder-1\<close> holds a live exclusive record
  on it.
\<close>

definition task_bare :: task where
  "task_bare = \<lparr>t_id = Some ''1'', t_name = Some ''Parser'', t_priority = None,
                t_description = None, t_dependencies = None, t_status = None,
                t_owner = None\<rparr>"

definition w_latest_locked :: world where
  "w_latest_locked = w_free\<lparr>
      files := [''graphs/latest.json'' \<mapsto> Json (Some [])],
      lock_files := [18 \<mapsto> Store [''graphs/latest.json'' \<mapsto>
          \<lparr>owner_id = ''coder-1'', time = 0, timeout = 30, exclusive = True\<rparr>]]\<rparr>"

text \<open>
  Two owners taking a shared lock on \<open>a.txt\<close> one second apart, in the free world:
  the objects and worlds after the first and after the second \<open>acquire\<close>.
\<close>

definition lock_O1 :: FileLock where
  "lock_O1 = FileLock_init ''a.txt'' ''O1'' 30"

definition lock_O2 :: FileLock where
  "lock_O2 = FileLock_init ''a.txt'' ''O2'' 30"

definition shared_w1 :: world where
  "shared_w1 = snd (acquire lock_O1 False 0 w_free)"

definition shared_O1 :: FileLock where
  "shared_O1 = projr (fst (acquire lock_O1 False 0 w_free))"

definition shared_w2 :: world where
  "shared_w2 = snd (acquire lock_O2 False 1000000 shared_w1)"

definition shared_O2 :: FileLock where
  "shared_O2 = projr (fst (acquire lock_O2 False 1000000 shared_w1))"

text \<open>The world after \<open>O2\<close> then releases, and a third owner.\<close>

definition shared_w3 :: world where
  "shared_w3 = snd (snd (release shared_O2 shared_w2))"

definition lock_O3 :: FileLock where
  "lock_O3 = FileLock_init ''a.txt'' ''O3'' 30"

text \<open>
  Managers. \<open>mk_task i p ds s\<close> is a task with id, priority, dependencies and status;
  \<open>mk_manager agents tasks assigned completed\<close> has an approved graph.
\<close>

definition mk_task :: "string \<Rightarrow> string \<Rightarrow> string list \<Rightarrow> string \<Rightarrow> task" where
  "mk_task i p ds s =
     \<lparr>t_id = Some i, t_name = Some i, t_priority = Some p, t_description = Some [],
      t_dependencies = Some ds, t_status = Some s, t_owner = Some ''Unassigned''\<rparr>"

definition mk_manager ::
  "string list \<Rightarrow> task list \<Rightarrow> (string option \<rightharpoonup> string) \<Rightarrow> (string \<rightharpoonup> string) \<Rightarrow> manager" where
  "mk_manager agents tasks assigned completed =
     \<lparr>coder_agents = agents, qualitator_agent = True, goal_graph = Some (Some tasks),
      goal_graph_approved = True, tasks_assigned = assigned, tasks_completed = completed,
      files_modified = {}, current_stage = ''goal_graph_approved''\<rparr>"

text \<open>
  The scenario of the spec after \<open>A\<close> is completed: \<open>B\<close> and \<open>C\<close> depend on
  \<open>A\<close>, two workers. And a pool of one worker with a High and a Low task.
\<close>

definition st_abc :: manager where
  "st_abc = mk_manager [''c1'', ''c2'']
     [mk_task ''A'' ''Medium'' [] ''Completed'',
      mk_task ''B'' ''Medium'' [''A''] ''Not Started'',
      mk_task ''C'' ''Medium'' [''A''] ''Not Started'']
     [Some ''A'' \<mapsto> ''c1''] [''A'' \<mapsto> ''Completed'']"

definition st_high_low :: manager where
  "st_high_low = mk_manager [''c1'']
     [mk_task ''A'' ''High'' [] ''Not Started'', mk_task ''B'' ''Low'' [] ''Not Started'']
     Map.empty Map.empty"

text \<open>
  A graph loaded with a task already marked In Progress that the manager never
  assigned; a task sent back by the review (Needs Fixes) that is still assigned; and a
  task assigned to \<open>c1\<close> and not yet implemented.
\<close>

definition st_in_progress :: manager where
  "st_in_progress = mk_manager [''c1'']
     [mk_task ''T'' ''High'' [] ''In Progress''] Map.empty Map.empty"

definition st_needs_fixes :: manager where
  "st_needs_fixes = mk_manager [''c1'']
     [mk_task ''T'' ''High'' [] ''Needs Fixes'']
     [Some ''T'' \<mapsto> ''c1''] [''T'' \<mapsto> ''Needs Fixes'']"

definition st_assigned :: manager where
  "st_assigned = mk_manager [''c1'']
     [mk_task ''T'' ''High'' [] ''In Progress''] [Some ''T'' \<mapsto> ''c1''] Map.empty"

definition abc_first :: "(string \<rightharpoonup> string option list) \<times> manager" where
  "abc_first = projr (assign_tasks st_abc)"

text \<open>
  \<open>w_held_for owner excl tmo\<close> is \<open>w_held\<close> with the timeout of the record
  chosen. In \<open>w_other_process\<close> the record of \<open>O1\<close> on \<open>a.txt\<close> sits in the
  lock file 6, where a process with another hash salt has put it, while the calling
  process names the lock file of \<open>a.txt\<close> 5.
\<close>

definition w_held_for :: "string \<Rightarrow> bool \<Rightarrow> int \<Rightarrow> world" where
  "w_held_for owner excl tmo = w_free\<lparr>lock_files :=
      [5 \<mapsto> Store [''a.txt'' \<mapsto>
             \<lparr>owner_id = owner, time = 0, timeout = tmo, exclusive = excl\<rparr>]]\<rparr>"

definition w_other_process :: world where
  "w_other_process = w_free\<lparr>lock_files :=
      [6 \<mapsto> Store [''a.txt'' \<mapsto>
             \<lparr>owner_id = ''O1'', time = 0, timeout = 30, exclusive = True\<rparr>]]\<rparr>"

text \<open>
  Graphs in which two tasks share an id. In \<open>st_same_id\<close> the first \<open>X\<close> waits for
  \<open>Y\<close> and the second \<open>X\<close> waits for nothing. In \<open>st_default_id\<close> the graph is
  the normalisation of a task with the id \<open>2\<close> followed by a task without id, which
  gets the default \<open>str(1 + 1)\<close>.
\<close>

definition st_same_id :: manager where
  "st_same_id = mk_manager [''c1'']
     [mk_task ''X'' ''Medium'' [''Y''] ''Not Started'',
      mk_task ''X'' ''Medium'' [] ''Not Started'']
     Map.empty Map.empty"

definition task_two :: task where
  "task_two = \<lparr>t_id = Some ''2'', t_name = None, t_priority = None, t_description = None,
               t_dependencies = None, t_status = None, t_owner = None\<rparr>"

definition task_no_id :: task where
  "task_no_id = \<lparr>t_id = None, t_name = None, t_priority = None, t_description = None,
                 t_dependencies = None, t_status = None, t_owner = None\<rparr>"

definition st_default_id :: manager where
  "st_default_id = mk_manager [''c1'', ''c2'']
     (graph_tasks (validate_goal_graph (Some [task_two, task_no_id])))
     Map.empty Map.empty"

section \<open>Lock manager: what acquire does\<close>

lemma expires_at_cases:
  "expires_at r = (if representable r then Inr (expiry r) else Inl OverflowError)"
  by (simp add: expires_at_def representable_def)

lemma check_existing_cases:
  "check_existing self excl now data =
     (case data (fl_file_path self) of
        None \<Rightarrow> Inr ()
      | Some r \<Rightarrow>
          if \<not> representable r then Inl OverflowError
          else if live now r \<and> owner_id r \<noteq> fl_owner_id self \<and> (excl \<or> exclusive r)
          then Inl (FileLockException_locked (owner_id r))
          else Inr ())"
  by (simp add: check_existing_def expires_at_cases live_def split: option.splits)

lemma acquire_busy:
  assumes "gate_busy w self"
  shows "fst (acquire self excl now w) = Inl FileLockException_busy"
    and "stored_record (snd (acquire self excl now w)) self = stored_record w self"
  using assms
  by (auto simp: acquire_def Let_def gate_busy_def stored_record_def lock_file_path_def
        load_data_def split: option.splits)

lemma acquire_overflow:
  assumes "\<not> gate_busy w self" and "expiry_overflow w self"
  shows "fst (acquire self excl now w) = Inl OverflowError"
    and "stored_record (snd (acquire self excl now w)) self = stored_record w self"
  using assms
  by (auto simp: acquire_def Let_def gate_busy_def expiry_overflow_def stored_record_def
        lock_file_path_def check_existing_cases split: option.splits)

lemma acquire_conflict:
  assumes "\<not> gate_busy w self" and "\<not> expiry_overflow w self"
    and "conflicting now self excl w"
  shows "fst (acquire self excl now w) =
           Inl (FileLockException_locked (owner_id (the (stored_record w self))))"
    and "stored_record (snd (acquire self excl now w)) self = stored_record w self"
  using assms
  by (auto simp: acquire_def Let_def gate_busy_def expiry_overflow_def conflicting_def
        stored_record_def lock_file_path_def check_existing_cases split: option.splits)

lemma acquire_succeeds:
  assumes "\<not> gate_busy w self" and "\<not> expiry_overflow w self"
    and "\<not> conflicting now self excl w"
  shows "\<exists>self' w'. acquire self excl now w = (Inr self', w')
           \<and> stored_record w' self' =
               Some \<lparr>owner_id = fl_owner_id self, time = now,
                     timeout = fl_timeout self, exclusive = excl\<rparr>"
  using assms
  by (auto simp: acquire_def Let_def gate_busy_def expiry_overflow_def conflicting_def
        stored_record_def lock_file_path_def check_existing_cases load_data_def
      split: option.splits)

lemma acquire_isl_iff:
  "isl (fst (acquire self excl now w)) \<longleftrightarrow>
     gate_busy w self \<or> expiry_overflow w self \<or> conflicting now self excl w"
proof (cases "gate_busy w self")
  case True
  then show ?thesis by (simp add: acquire_busy)
next
  case nb: False
  show ?thesis
  proof (cases "expiry_overflow w self")
    case True
    with nb show ?thesis by (simp add: acquire_overflow)
  next
    case no: False
    show ?thesis
    proof (cases "conflicting now self excl w")
      case True
      with nb no show ?thesis by (simp add: acquire_conflict)
    next
      case False
      with nb no acquire_succeeds [OF nb no False] show ?thesis by auto
    qed
  qed
qed

text \<open>
  C1, as the code has it. The record store is the lock file that the calling process
  names for the resource. \<open>acquire\<close> raises \<open>FileLockException\<close> exactly when that
  lock file is busy (another process holds \<open>flock\<close> on it), or it is not busy, the
  expiry of the stored record can be computed, and the record is live, names another
  owner, and the request or the record is exclusive. The busy exception comes exactly
  when the lock file is busy; with a lock file that is not busy, \<open>OverflowError\<close>
  comes exactly when a record is stored whose expiry is not a \<open>datetime\<close>; and
  \<open>acquire\<close> raises nothing else. So with the lock file free and the stored expiry
  computable, a shared request against a live foreign shared record succeeds, and so
  does every request with no live foreign record.
\<close>

theorem acquire_raises_iff:
  "((\<exists>e. fst (acquire self excl now w) = Inl e \<and> is_FileLockException e) \<longleftrightarrow>
      gate_busy w self \<or> (\<not> expiry_overflow w self \<and> conflicting now self excl w))
   \<and> (fst (acquire self excl now w) = Inl FileLockException_busy \<longleftrightarrow> gate_busy w self)
   \<and> (fst (acquire self excl now w) = Inl OverflowError \<longleftrightarrow>
        \<not> gate_busy w self \<and> expiry_overflow w self)
   \<and> (isl (fst (acquire self excl now w)) \<longleftrightarrow>
        gate_busy w self \<or> expiry_overflow w self \<or> conflicting now self excl w)"
proof (cases "gate_busy w self")
  case True
  then show ?thesis
    by (simp add: acquire_busy is_FileLockException_def)
next
  case nb: False
  show ?thesis
  proof (cases "expiry_overflow w self")
    case True
    with nb show ?thesis
      by (simp add: acquire_overflow is_FileLockException_def)
  next
    case no: False
    show ?thesis
    proof (cases "conflicting now self excl w")
      case True
      with nb no show ?thesis
        by (simp add: acquire_conflict is_FileLockException_def)
    next
      case False
      with nb no acquire_succeeds [OF nb no False] show ?thesis by auto
    qed
  qed
qed

theorem acquire_raises_iff_witness:
  "isl (fst (acquire lock_O2 False 1000000 (w_held ''O1'' True)))
   \<and> \<not> gate_busy (w_held ''O1'' True) lock_O2
   \<and> \<not> expiry_overflow (w_held ''O1'' True) lock_O2
   \<and> conflicting 1000000 lock_O2 False (w_held ''O1'' True)
   \<and> (\<exists>e. fst (acquire lock_O2 False 1000000 (w_held ''O1'' True)) = Inl e
          \<and> is_FileLockException e)
   \<and> \<not> conflicting 1000000 lock_O2 False (w_held ''O1'' False)
   \<and> \<not> isl (fst (acquire lock_O2 False 1000000 (w_held ''O1'' False)))"
proof -
  have a: "\<not> gate_busy (w_held ''O1'' True) lock_O2"
      "\<not> expiry_overflow (w_held ''O1'' True) lock_O2"
      "conflicting 1000000 lock_O2 False (w_held ''O1'' True)"
    by (simp_all add: gate_busy_def expiry_overflow_def conflicting_def stored_record_def
          lock_file_path_def lock_O2_def FileLock_init_def w_held_def w_free_def load_data_def
          live_def expiry_def representable_def timedelta_ok_def datetime_ok_def dt_max_def)
  have b: "\<not> gate_busy (w_held ''O1'' False) lock_O2"
      "\<not> expiry_overflow (w_held ''O1'' False) lock_O2"
      "\<not> conflicting 1000000 lock_O2 False (w_held ''O1'' False)"
    by (simp_all add: gate_busy_def expiry_overflow_def conflicting_def stored_record_def
          lock_file_path_def lock_O2_def FileLock_init_def w_held_def w_free_def load_data_def
          live_def expiry_def representable_def timedelta_ok_def datetime_ok_def dt_max_def)
  from acquire_raises_iff [of lock_O2 False 1000000 "w_held ''O1'' True"]
       acquire_raises_iff [of lock_O2 False 1000000 "w_held ''O1'' False"] a b
  show ?thesis by simp
qed

text \<open>
  C1 as stated fails three ways. With no record stored for \<open>a.txt\<close> at all, a shared
  request raises \<open>FileLockException\<close> when the lock file is busy. With a live
  exclusive record of \<open>O1\<close> whose timeout is \<open>10^12\<close> seconds, the request of
  \<open>O2\<close> raises \<open>OverflowError\<close>, not \<open>FileLockException\<close>. And when the live
  exclusive record of \<open>O1\<close> on \<open>a.txt\<close> sits in the lock file another process
  named, the exclusive request of \<open>O2\<close> succeeds.
\<close>

theorem acquire_busy_counterexample:
  "fst (acquire lock_O1 False 0 (w_free\<lparr>flock_busy := {5}\<rparr>)) = Inl FileLockException_busy
   \<and> is_FileLockException FileLockException_busy
   \<and> stored_record (w_free\<lparr>flock_busy := {5}\<rparr>) lock_O1 = None
   \<and> lock_files (w_free\<lparr>flock_busy := {5}\<rparr>) = Map.empty
   \<and> stored_record (w_held_for ''O1'' True 1000000000000) lock_O2 =
        Some \<lparr>owner_id = ''O1'', time = 0, timeout = 1000000000000, exclusive = True\<rparr>
   \<and> live 1000000
        \<lparr>owner_id = ''O1'', time = 0, timeout = 1000000000000, exclusive = True\<rparr>
   \<and> fst (acquire lock_O2 True 1000000 (w_held_for ''O1'' True 1000000000000))
        = Inl OverflowError
   \<and> \<not> is_FileLockException OverflowError
   \<and> lock_files w_other_process 6 =
        Some (Store [''a.txt'' \<mapsto>
                \<lparr>owner_id = ''O1'', time = 0, timeout = 30, exclusive = True\<rparr>])
   \<and> live 1000000 \<lparr>owner_id = ''O1'', time = 0, timeout = 30, exclusive = True\<rparr>
   \<and> \<not> isl (fst (acquire lock_O2 True 1000000 w_other_process))"
  by (simp add: acquire_def check_existing_def expires_at_def expiry_def timedelta_ok_def
        datetime_ok_def dt_max_def w_free_def w_held_for_def w_other_process_def
        lock_O1_def lock_O2_def FileLock_init_def lock_file_path_def load_data_def
        is_FileLockException_def stored_record_def live_def Let_def)

subsection \<open>Two shared holders, expiry, renewal\<close>

lemma shared_w1_eq: "shared_w1 = w_held ''O1'' False"
  by (simp add: shared_w1_def acquire_def check_existing_def lock_O1_def FileLock_init_def
        w_free_def w_held_def lock_file_path_def load_data_def Let_def)

lemma shared_O1_eq:
  "fst (acquire lock_O1 False 0 w_free) =
     Inr (lock_O1\<lparr>fl_lock_data :=
                     Some \<lparr>owner_id = ''O1'', time = 0, timeout = 30, exclusive = False\<rparr>,
                   fl_locked := True\<rparr>)"
  by (simp add: acquire_def check_existing_def lock_O1_def FileLock_init_def w_free_def
        lock_file_path_def load_data_def Let_def)

lemma shared_O2_eq:
  "acquire lock_O2 False 1000000 (w_held ''O1'' False) =
     (Inr (lock_O2\<lparr>fl_lock_data :=
                      Some \<lparr>owner_id = ''O2'', time = 1000000, timeout = 30,
                            exclusive = False\<rparr>,
                    fl_locked := True\<rparr>),
      w_free\<lparr>lock_files := [5 \<mapsto> Store [''a.txt'' \<mapsto>
                \<lparr>owner_id = ''O2'', time = 1000000, timeout = 30, exclusive = False\<rparr>]]\<rparr>)"
  by (simp add: acquire_def check_existing_def expires_at_def expiry_def timedelta_ok_def
        datetime_ok_def dt_max_def lock_O2_def FileLock_init_def w_free_def w_held_def
        lock_file_path_def load_data_def Let_def)

lemma shared_w2_eq:
  "shared_w2 = w_free\<lparr>lock_files := [5 \<mapsto> Store [''a.txt'' \<mapsto>
                \<lparr>owner_id = ''O2'', time = 1000000, timeout = 30, exclusive = False\<rparr>]]\<rparr>"
  unfolding shared_w2_def shared_w1_eq shared_O2_eq by simp

lemma shared_w3_eq:
  "stored_record shared_w3 lock_O3 = None \<and> \<not> gate_busy shared_w3 lock_O3"
  unfolding shared_w3_def shared_O2_def shared_w1_eq shared_O2_eq shared_w2_eq
  by (simp add: release_def stored_record_def gate_busy_def lock_file_path_def lock_O2_def
        lock_O3_def FileLock_init_def w_free_def load_data_def Let_def)

text \<open>
  C2 on the code: \<open>O1\<close> and then, one second later, \<open>O2\<close> take a shared lock on
  \<open>a.txt\<close>. Both calls succeed and both objects are marked locked, but the store has
  one slot per resource and the second call overwrites it: the only stored record names
  \<open>O2\<close>, the release of \<open>O1\<close> returns \<open>False\<close>, and that of \<open>O2\<close> returns
  \<open>True\<close>. Once \<open>O2\<close> has released, no record is left, and a third owner gets an
  exclusive lock at 2 s, while \<open>O1\<close> has neither released nor timed out.
\<close>

theorem second_shared_overwrites_first:
  "\<not> isl (fst (acquire lock_O1 False 0 w_free))
   \<and> \<not> isl (fst (acquire lock_O2 False 1000000 shared_w1))
   \<and> fl_locked shared_O1 \<and> fl_locked shared_O2
   \<and> stored_record shared_w2 shared_O1 =
       Some \<lparr>owner_id = ''O2'', time = 1000000, timeout = 30, exclusive = False\<rparr>
   \<and> fst (release shared_O1 shared_w2) = False
   \<and> fst (release shared_O2 shared_w2) = True
   \<and> \<not> isl (fst (acquire lock_O3 True 2000000 shared_w3))"
proof -
  have "\<not> conflicting 2000000 lock_O3 True shared_w3"
    and "\<not> expiry_overflow shared_w3 lock_O3"
    using shared_w3_eq by (simp_all add: conflicting_def expiry_overflow_def)
  then have "\<not> isl (fst (acquire lock_O3 True 2000000 shared_w3))"
    using shared_w3_eq by (simp add: acquire_isl_iff)
  moreover have "\<not> isl (fst (acquire lock_O1 False 0 w_free))
   \<and> \<not> isl (fst (acquire lock_O2 False 1000000 shared_w1))
   \<and> fl_locked shared_O1 \<and> fl_locked shared_O2
   \<and> stored_record shared_w2 shared_O1 =
       Some \<lparr>owner_id = ''O2'', time = 1000000, timeout = 30, exclusive = False\<rparr>
   \<and> fst (release shared_O1 shared_w2) = False
   \<and> fst (release shared_O2 shared_w2) = True"
    unfolding shared_w2_def shared_O2_def shared_O1_def shared_w1_eq shared_O1_eq shared_O2_eq
    by (simp add: release_def stored_record_def lock_file_path_def lock_O1_def lock_O2_def
          FileLock_init_def w_free_def load_data_def Let_def)
  ultimately show ?thesis by blast
qed


text \<open>
  C5, as the code has it. When the record stored for the resource has expired, that
  is, its time plus its timeout is a \<open>datetime\<close> and \<open>now\<close> is not before it, then
  \<open>acquire\<close> by any owner, the record's owner or another, in either mode, does one of
  two things. If the lock file is not busy the call succeeds, and afterwards the stored
  record names the caller, with the current time, the caller's timeout and the
  requested mode. If the lock file is busy the call raises \<open>FileLockException\<close> and
  the stored record is left as it was.
\<close>

theorem acquire_expired:
  assumes "stored_record w self = Some r" and "representable r" and "\<not> live now r"
  shows "(\<not> gate_busy w self \<longrightarrow>
            (\<exists>self' w'. acquire self excl now w = (Inr self', w')
               \<and> stored_record w' self' =
                   Some \<lparr>owner_id = fl_owner_id self, time = now,
                         timeout = fl_timeout self, exclusive = excl\<rparr>))
       \<and> (gate_busy w self \<longrightarrow>
            fst (acquire self excl now w) = Inl FileLockException_busy
            \<and> stored_record (snd (acquire self excl now w)) self = Some r)"
proof -
  have no: "\<not> expiry_overflow w self" and nc: "\<not> conflicting now self excl w"
    using assms by (simp_all add: expiry_overflow_def conflicting_def)
  show ?thesis
  proof (cases "gate_busy w self")
    case True
    with assms(1) show ?thesis by (simp add: acquire_busy)
  next
    case False
    with acquire_succeeds [OF False no nc] show ?thesis by simp
  qed
qed

theorem acquire_expired_witness:
  "stored_record (w_held ''O1'' True) lock_O2 =
     Some \<lparr>owner_id = ''O1'', time = 0, timeout = 30, exclusive = True\<rparr>
   \<and> representable \<lparr>owner_id = ''O1'', time = 0, timeout = 30, exclusive = True\<rparr>
   \<and> \<not> live 31000000 \<lparr>owner_id = ''O1'', time = 0, timeout = 30, exclusive = True\<rparr>
   \<and> \<not> gate_busy (w_held ''O1'' True) lock_O2
   \<and> (\<exists>self' w'. acquire lock_O2 True 31000000 (w_held ''O1'' True) = (Inr self', w')
         \<and> stored_record w' self' =
             Some \<lparr>owner_id = ''O2'', time = 31000000, timeout = 30, exclusive = True\<rparr>)
   \<and> stored_record (w_held ''O1'' True\<lparr>flock_busy := {5}\<rparr>) lock_O2 =
       Some \<lparr>owner_id = ''O1'', time = 0, timeout = 30, exclusive = True\<rparr>
   \<and> gate_busy (w_held ''O1'' True\<lparr>flock_busy := {5}\<rparr>) lock_O2
   \<and> fst (acquire lock_O2 True 31000000 (w_held ''O1'' True\<lparr>flock_busy := {5}\<rparr>))
       = Inl FileLockException_busy"
proof -
  let ?r = "\<lparr>owner_id = ''O1'', time = 0, timeout = 30, exclusive = True\<rparr>"
  have h1: "stored_record (w_held ''O1'' True) lock_O2 = Some ?r"
    and k1: "stored_record (w_held ''O1'' True\<lparr>flock_busy := {5}\<rparr>) lock_O2 = Some ?r"
    by (simp_all add: stored_record_def w_held_def w_free_def lock_O2_def FileLock_init_def
          lock_file_path_def load_data_def)
  have h2: "representable ?r"
    by (simp add: representable_def timedelta_ok_def datetime_ok_def dt_max_def expiry_def)
  have h3: "\<not> live 31000000 ?r"
    by (simp add: live_def expiry_def)
  have h4: "\<not> gate_busy (w_held ''O1'' True) lock_O2"
    and k4: "gate_busy (w_held ''O1'' True\<lparr>flock_busy := {5}\<rparr>) lock_O2"
    by (simp_all add: gate_busy_def w_held_def w_free_def lock_O2_def FileLock_init_def
          lock_file_path_def)
  from acquire_expired [OF h1 h2 h3, of True] acquire_expired [OF k1 h2 h3, of True]
       h1 h2 h3 h4 k1 k4
  show ?thesis by (simp add: lock_O2_def FileLock_init_def)
qed

text \<open>
  C5 as stated fails two ways. The record of \<open>O1\<close> (timeout 30 s) has expired at
  31 s, but the lock file is busy: the \<open>acquire\<close> of \<open>O2\<close> raises
  \<open>FileLockException\<close> and the record still names \<open>O1\<close>. And a record whose
  timeout is \<open>-10^12\<close> seconds is long past its time plus its timeout, but that sum
  is no \<open>datetime\<close>: with the lock file free, the \<open>acquire\<close> of \<open>O2\<close> raises
  \<open>OverflowError\<close> and the record still names \<open>O1\<close>.
\<close>

theorem acquire_expired_busy_counterexample:
  "stored_record (w_held ''O1'' True\<lparr>flock_busy := {5}\<rparr>) lock_O2 =
     Some \<lparr>owner_id = ''O1'', time = 0, timeout = 30, exclusive = True\<rparr>
   \<and> \<not> live 31000000 \<lparr>owner_id = ''O1'', time = 0, timeout = 30, exclusive = True\<rparr>
   \<and> fst (acquire lock_O2 True 31000000 (w_held ''O1'' True\<lparr>flock_busy := {5}\<rparr>))
       = Inl FileLockException_busy
   \<and> stored_record (snd (acquire lock_O2 True 31000000 (w_held ''O1'' True\<lparr>flock_busy := {5}\<rparr>)))
        lock_O2 = Some \<lparr>owner_id = ''O1'', time = 0, timeout = 30, exclusive = True\<rparr>
   \<and> stored_record (w_held_for ''O1'' True (- 1000000000000)) lock_O2 =
       Some \<lparr>owner_id = ''O1'', time = 0, timeout = - 1000000000000, exclusive = True\<rparr>
   \<and> \<not> live 31000000
          \<lparr>owner_id = ''O1'', time = 0, timeout = - 1000000000000, exclusive = True\<rparr>
   \<and> \<not> gate_busy (w_held_for ''O1'' True (- 1000000000000)) lock_O2
   \<and> fst (acquire lock_O2 True 31000000 (w_held_for ''O1'' True (- 1000000000000)))
       = Inl OverflowError
   \<and> stored_record
        (snd (acquire lock_O2 True 31000000 (w_held_for ''O1'' True (- 1000000000000))))
        lock_O2 =
       Some \<lparr>owner_id = ''O1'', time = 0, timeout = - 1000000000000, exclusive = True\<rparr>"
  by (simp add: stored_record_def w_held_def w_held_for_def w_free_def lock_O2_def
        FileLock_init_def lock_file_path_def load_data_def live_def expiry_def acquire_def
        check_existing_def expires_at_def timedelta_ok_def datetime_ok_def dt_max_def
        gate_busy_def Let_def)

text \<open>
  C10, as the code has it. When the stored record is owned by the caller and live, and
  its time plus its timeout is a \<open>datetime\<close>, then whatever the held and the
  requested mode, \<open>acquire\<close> does one of two things. If the lock file is not busy the
  call succeeds and replaces the record: its time is the current time, its exclusive
  flag the requested mode, its timeout the caller's. If the lock file is busy the call
  raises \<open>FileLockException\<close> and the stored record is left as it was.
\<close>

theorem acquire_same_owner:
  assumes "stored_record w self = Some r" and "representable r" and "live now r"
    and "owner_id r = fl_owner_id self"
  shows "(\<not> gate_busy w self \<longrightarrow>
            (\<exists>self' w'. acquire self excl now w = (Inr self', w')
               \<and> stored_record w' self' =
                   Some \<lparr>owner_id = fl_owner_id self, time = now,
                         timeout = fl_timeout self, exclusive = excl\<rparr>))
       \<and> (gate_busy w self \<longrightarrow>
            fst (acquire self excl now w) = Inl FileLockException_busy
            \<and> stored_record (snd (acquire self excl now w)) self = Some r)"
proof -
  have no: "\<not> expiry_overflow w self" and nc: "\<not> conflicting now self excl w"
    using assms by (simp_all add: expiry_overflow_def conflicting_def)
  show ?thesis
  proof (cases "gate_busy w self")
    case True
    with assms(1) show ?thesis by (simp add: acquire_busy)
  next
    case False
    with acquire_succeeds [OF False no nc] show ?thesis by simp
  qed
qed

theorem acquire_same_owner_witness:
  "stored_record (w_held ''O1'' True) lock_O1 =
     Some \<lparr>owner_id = ''O1'', time = 0, timeout = 30, exclusive = True\<rparr>
   \<and> representable \<lparr>owner_id = ''O1'', time = 0, timeout = 30, exclusive = True\<rparr>
   \<and> live 2000000 \<lparr>owner_id = ''O1'', time = 0, timeout = 30, exclusive = True\<rparr>
   \<and> \<not> gate_busy (w_held ''O1'' True) lock_O1
   \<and> (\<exists>self' w'. acquire lock_O1 True 2000000 (w_held ''O1'' True) = (Inr self', w')
         \<and> stored_record w' self' =
             Some \<lparr>owner_id = ''O1'', time = 2000000, timeout = 30, exclusive = True\<rparr>)
   \<and> (\<exists>self' w'. acquire lock_O1 False 2000000 (w_held ''O1'' True) = (Inr self', w')
         \<and> stored_record w' self' =
             Some \<lparr>owner_id = ''O1'', time = 2000000, timeout = 30, exclusive = False\<rparr>)
   \<and> gate_busy (w_held ''O1'' True\<lparr>flock_busy := {5}\<rparr>) lock_O1
   \<and> fst (acquire lock_O1 True 2000000 (w_held ''O1'' True\<lparr>flock_busy := {5}\<rparr>))
       = Inl FileLockException_busy"
proof -
  let ?r = "\<lparr>owner_id = ''O1'', time = 0, timeout = 30, exclusive = True\<rparr>"
  have h1: "stored_record (w_held ''O1'' True) lock_O1 = Some ?r"
    and k1: "stored_record (w_held ''O1'' True\<lparr>flock_busy := {5}\<rparr>) lock_O1 = Some ?r"
    by (simp_all add: stored_record_def w_held_def w_free_def lock_O1_def FileLock_init_def
          lock_file_path_def load_data_def)
  have h2: "representable ?r"
    by (simp add: representable_def timedelta_ok_def datetime_ok_def dt_max_def expiry_def)
  have h3: "live 2000000 ?r"
    by (simp add: live_def expiry_def)
  have h4: "owner_id ?r = fl_owner_id lock_O1"
    by (simp add: lock_O1_def FileLock_init_def)
  have h5: "\<not> gate_busy (w_held ''O1'' True) lock_O1"
    and k5: "gate_busy (w_held ''O1'' True\<lparr>flock_busy := {5}\<rparr>) lock_O1"
    by (simp_all add: gate_busy_def w_held_def w_free_def lock_O1_def FileLock_init_def
          lock_file_path_def)
  from acquire_same_owner [OF h1 h2 h3 h4, of True]
       acquire_same_owner [OF h1 h2 h3 h4, of False]
       acquire_same_owner [OF k1 h2 h3 h4, of True] h1 h2 h3 h5 k5
  show ?thesis by (simp add: lock_O1_def FileLock_init_def)
qed

text \<open>
  C10 as stated fails two ways. \<open>O1\<close> holds a live exclusive record and asks again
  while the lock file is busy: \<open>acquire\<close> raises \<open>FileLockException\<close> and the
  record keeps its old time. And \<open>O1\<close> holds a live record whose timeout is
  \<open>10^12\<close> seconds and asks again with the lock file free: the expiry is no
  \<open>datetime\<close>, \<open>acquire\<close> raises \<open>OverflowError\<close> and the record keeps its old
  time.
\<close>

theorem acquire_same_owner_busy_counterexample:
  "stored_record (w_held ''O1'' True\<lparr>flock_busy := {5}\<rparr>) lock_O1 =
     Some \<lparr>owner_id = ''O1'', time = 0, timeout = 30, exclusive = True\<rparr>
   \<and> live 2000000 \<lparr>owner_id = ''O1'', time = 0, timeout = 30, exclusive = True\<rparr>
   \<and> fl_owner_id lock_O1 = ''O1''
   \<and> fst (acquire lock_O1 True 2000000 (w_held ''O1'' True\<lparr>flock_busy := {5}\<rparr>))
       = Inl FileLockException_busy
   \<and> stored_record (snd (acquire lock_O1 True 2000000 (w_held ''O1'' True\<lparr>flock_busy := {5}\<rparr>)))
        lock_O1 = Some \<lparr>owner_id = ''O1'', time = 0, timeout = 30, exclusive = True\<rparr>
   \<and> stored_record (w_held_for ''O1'' True 1000000000000) lock_O1 =
       Some \<lparr>owner_id = ''O1'', time = 0, timeout = 1000000000000, exclusive = True\<rparr>
   \<and> live 2000000
        \<lparr>owner_id = ''O1'', time = 0, timeout = 1000000000000, exclusive = True\<rparr>
   \<and> \<not> gate_busy (w_held_for ''O1'' True 1000000000000) lock_O1
   \<and> fst (acquire lock_O1 True 2000000 (w_held_for ''O1'' True 1000000000000))
       = Inl OverflowError
   \<and> stored_record
        (snd (acquire lock_O1 True 2000000 (w_held_for ''O1'' True 1000000000000)))
        lock_O1 =
       Some \<lparr>owner_id = ''O1'', time = 0, timeout = 1000000000000, exclusive = True\<rparr>"
  by (simp add: stored_record_def w_held_def w_held_for_def w_free_def lock_O1_def
        FileLock_init_def lock_file_path_def load_data_def live_def expiry_def acquire_def
        check_existing_def expires_at_def timedelta_ok_def datetime_ok_def dt_max_def
        gate_busy_def Let_def)

section \<open>Task graph store: persist and load\<close>

lemma file_lock_write:
  assumes "lock_free now p owner tmo True w"
  shows "\<exists>w'. file_lock p owner True tmo now (write_graph p g) w = (Inr (), w')
          \<and> files w' = (files w)(p \<mapsto> Json g)
          \<and> path_hash w' = path_hash w \<and> flock_busy w' = flock_busy w
          \<and> stored_record w' (FileLock_init p owner' tmo') = None
          \<and> (\<forall>q owner' tmo'. q \<noteq> p \<longrightarrow> stored_record w' (FileLock_init q owner' tmo') = stored_record w (FileLock_init q owner' tmo'))"
  using assms
  by (auto simp: lock_free_def file_lock_def acquire_def check_existing_cases release_def write_graph_def Let_def
        gate_busy_def expiry_overflow_def conflicting_def stored_record_def lock_file_path_def FileLock_init_def
        load_data_def live_def
      split: option.splits lock_file.splits if_splits)

lemma file_lock_read:
  assumes "lock_free now p owner tmo False w" and "files w p = Some (Json g)"
  shows "fst (file_lock p owner False tmo now (read_graph p) w) = Inr g"
  using assms
  by (auto simp: lock_free_def file_lock_def acquire_def check_existing_cases release_def read_graph_def Let_def
        gate_busy_def expiry_overflow_def conflicting_def stored_record_def lock_file_path_def FileLock_init_def
        load_data_def live_def
      split: option.splits lock_file.splits if_splits)

lemma lock_free_transfer:
  assumes "path_hash w' = path_hash w" and "flock_busy w' = flock_busy w"
    and "stored_record w' (FileLock_init p owner tmo) = stored_record w (FileLock_init p owner tmo)"
    and "lock_free now p owner tmo excl w"
  shows "lock_free now p owner tmo excl w'"
  using assms
  by (simp add: lock_free_def gate_busy_def expiry_overflow_def conflicting_def
        lock_file_path_def)

lemma lock_free_no_record:
  assumes "stored_record w (FileLock_init p owner tmo) = None"
  shows "lock_free now p owner tmo excl w \<longleftrightarrow> path_hash w p \<notin> flock_busy w"
  using assms
  by (simp add: lock_free_def gate_busy_def expiry_overflow_def conflicting_def
        lock_file_path_def FileLock_init_def)

lemma snapshot_neq_latest: "dir @ ''/goal_graph_'' @ stamp @ ''.json'' \<noteq> dir @ ''/latest.json''"
  by simp

lemma save_goal_graph_free:
  assumes f1: "lock_free now (dir @ ''/goal_graph_'' @ stamp @ ''.json'') self_id tmo True w"
      and f2: "lock_free now (dir @ ''/latest.json'') self_id tmo True w"
  shows "files (save_goal_graph self_id dir stamp tmo g now w) (dir @ ''/latest.json'') = Some (Json g)
       \<and> lock_free now' (dir @ ''/latest.json'') self_id tmo excl (save_goal_graph self_id dir stamp tmo g now w)"
proof -
  let ?fp = "dir @ ''/goal_graph_'' @ stamp @ ''.json''"
  let ?lp = "dir @ ''/latest.json''"
  from file_lock_write [OF f1, of g self_id tmo] obtain w1 where
    w1: "file_lock ?fp self_id True tmo now (write_graph ?fp g) w = (Inr (), w1)"
    and h1: "path_hash w1 = path_hash w" "flock_busy w1 = flock_busy w"
    and s1: "\<forall>q owner' tmo'. q \<noteq> ?fp \<longrightarrow> stored_record w1 (FileLock_init q owner' tmo') = stored_record w (FileLock_init q owner' tmo')"
    by blast
  have ne: "?lp \<noteq> ?fp" by simp
  have e1: "stored_record w1 (FileLock_init ?lp self_id tmo) = stored_record w (FileLock_init ?lp self_id tmo)"
    using s1 ne by blast
  have f2': "lock_free now ?lp self_id tmo True w1"
    by (rule lock_free_transfer [OF h1 e1 f2])
  from file_lock_write [OF f2', of g self_id tmo] obtain w2 where
    w2: "file_lock ?lp self_id True tmo now (write_graph ?lp g) w1 = (Inr (), w2)"
    and fl: "files w2 = (files w1)(?lp \<mapsto> Json g)"
    and h2: "path_hash w2 = path_hash w1" "flock_busy w2 = flock_busy w1"
    and s2: "stored_record w2 (FileLock_init ?lp self_id tmo) = None"
    by blast
  have sv: "save_goal_graph self_id dir stamp tmo g now w = w2"
    unfolding save_goal_graph_def Let_def w1 using w2 by simp
  have "path_hash w ?lp \<notin> flock_busy w"
    using f2 by (simp add: lock_free_def gate_busy_def lock_file_path_def FileLock_init_def)
  then have "lock_free now' ?lp self_id tmo excl w2"
    using s2 h1 h2 by (simp add: lock_free_no_record)
  with fl sv show ?thesis by simp
qed

lemma load_after_save:
  assumes "lock_free now (dir @ ''/goal_graph_'' @ stamp @ ''.json'') self_id tmo True w"
      and "lock_free now (dir @ ''/latest.json'') self_id tmo True w"
  shows "fst (load_goal_graph self_id dir ''latest.json'' tmo now'
                (save_goal_graph self_id dir stamp tmo g now w)) = Inr g"
proof -
  let ?w2 = "save_goal_graph self_id dir stamp tmo g now w"
  let ?lp = "dir @ ''/latest.json''"
  from save_goal_graph_free [OF assms, of g now' False]
  have fl: "files ?w2 ?lp = Some (Json g)"
    and fr: "lock_free now' ?lp self_id tmo False ?w2" by blast+
  have r: "fst (file_lock ?lp self_id False tmo now' (read_graph ?lp) ?w2) = Inr g"
    by (rule file_lock_read [OF fr fl])
  obtain x w3 where x: "file_lock ?lp self_id False tmo now' (read_graph ?lp) ?w2 = (x, w3)"
    by (cases "file_lock ?lp self_id False tmo now' (read_graph ?lp) ?w2")
  with r have "x = Inr g" by simp
  with x fl show ?thesis
    by (simp add: load_goal_graph_def Let_def)
qed

lemma fill_defaults_fields:
  "t_status (fill_defaults i t) = Some (case t_status t of None \<Rightarrow> ''Not Started'' | Some s \<Rightarrow> s)"
  "t_owner (fill_defaults i t) = Some (case t_owner t of None \<Rightarrow> ''Unassigned'' | Some s \<Rightarrow> s)"
  "t_priority (fill_defaults i t) = Some (case t_priority t of None \<Rightarrow> ''Medium'' | Some s \<Rightarrow> s)"
  "t_dependencies (fill_defaults i t) = Some (case t_dependencies t of None \<Rightarrow> [] | Some s \<Rightarrow> s)"
  "t_description (fill_defaults i t) = Some (case t_description t of None \<Rightarrow> ''No description provided.'' | Some s \<Rightarrow> s)"
  "t_id (fill_defaults i t) = Some (case t_id t of None \<Rightarrow> str_of_nat (i + 1) | Some s \<Rightarrow> s)"
  "t_name (fill_defaults i t) = Some (case t_name t of None \<Rightarrow> ''Task '' @ (case t_id t of None \<Rightarrow> str_of_nat (i + 1) | Some s \<Rightarrow> s) | Some s \<Rightarrow> s)"
  by (simp_all add: fill_defaults_def Let_def split: option.splits)

lemma validate_goal_graph_nth:
  "\<exists>ts'. validate_goal_graph g = Some ts' \<and> length ts' = length (graph_tasks g)
         \<and> (\<forall>i<length ts'. ts' ! i = fill_defaults i (graph_tasks g ! i))"
  by (simp add: validate_goal_graph_def graph_tasks_def Let_def nth_enumerate_eq
           split: option.splits)

lemma w_free_lock_free: "lock_free now p owner tmo excl w_free"
  by (simp add: lock_free_def gate_busy_def expiry_overflow_def conflicting_def stored_record_def
        lock_file_path_def w_free_def)

lemma fill_defaults_full:
  assumes "t_id t \<noteq> None" and "t_name t \<noteq> None" and "t_priority t \<noteq> None"
    and "t_description t \<noteq> None" and "t_dependencies t \<noteq> None"
    and "t_status t \<noteq> None" and "t_owner t \<noteq> None"
  shows "fill_defaults i t = t"
  using assms by (simp add: fill_defaults_def Let_def)

lemma fill_defaults_idem: "fill_defaults i (fill_defaults i t) = fill_defaults i t"
  by (rule fill_defaults_full) (simp_all add: fill_defaults_fields)

lemma validate_goal_graph_idem:
  "validate_goal_graph (validate_goal_graph g) = validate_goal_graph g"
proof -
  obtain ts' where v: "validate_goal_graph g = Some ts'"
    and n: "\<forall>i<length ts'. ts' ! i = fill_defaults i (graph_tasks g ! i)"
    using validate_goal_graph_nth [of g] by blast
  have "map (\<lambda>(i, task0). fill_defaults i task0) (enumerate 0 ts') = ts'"
  proof (rule nth_equalityI)
    show "length (map (\<lambda>(i, task0). fill_defaults i task0) (enumerate 0 ts')) = length ts'"
      by simp
  next
    fix i
    assume "i < length (map (\<lambda>(i, task0). fill_defaults i task0) (enumerate 0 ts'))"
    then have i: "i < length ts'" by simp
    then have "map (\<lambda>(i, task0). fill_defaults i task0) (enumerate 0 ts') ! i
                 = fill_defaults i (ts' ! i)"
      by (simp add: nth_enumerate_eq)
    also have "\<dots> = ts' ! i"
      using n i by (simp add: fill_defaults_idem)
    finally show "map (\<lambda>(i, task0). fill_defaults i task0) (enumerate 0 ts') ! i = ts' ! i" .
  qed
  then have "validate_goal_graph (Some ts') = Some ts'"
    by (simp add: validate_goal_graph_def)
  then show ?thesis
    by (simp only: v)
qed

text \<open>
  C8, as the code has it. \<open>_save_goal_graph\<close> is only called on the output of
  \<open>_validate_goal_graph\<close>, the normalisation. When no lock blocks the two snapshot
  files (for either path the lock file is not busy, the expiry of a stored record can
  be computed and no live foreign record is stored), persisting the normalised graph
  and loading \<open>latest.json\<close> returns the normalised graph. Normalising is idempotent,
  and in the normalised graph every task has all seven attributes: the value given in
  the input where there is one, and otherwise the default, \<open>str(i + 1)\<close> for the id
  of the task at index \<open>i\<close>, \<open>Task\<close> and the id for the name, \<open>Medium\<close>,
  \<open>No description provided.\<close>, \<open>[]\<close>, \<open>Not Started\<close> and \<open>Unassigned\<close>.
\<close>

theorem persist_then_load:
  assumes "lock_free now (dir @ ''/goal_graph_'' @ stamp @ ''.json'') self_id tmo True w"
      and "lock_free now (dir @ ''/latest.json'') self_id tmo True w"
  shows "fst (load_goal_graph self_id dir ''latest.json'' tmo now'
                (save_goal_graph self_id dir stamp tmo (validate_goal_graph g) now w))
           = Inr (validate_goal_graph g)
       \<and> validate_goal_graph (validate_goal_graph g) = validate_goal_graph g
       \<and> (\<exists>ts'. validate_goal_graph g = Some ts' \<and> length ts' = length (graph_tasks g)
            \<and> (\<forall>i<length ts'.
                  t_id (ts' ! i) =
                      Some (case t_id (graph_tasks g ! i) of
                              None \<Rightarrow> str_of_nat (i + 1) | Some a \<Rightarrow> a)
                  \<and> t_name (ts' ! i) =
                      Some (case t_name (graph_tasks g ! i) of
                              None \<Rightarrow>
                                ''Task '' @
                                (case t_id (graph_tasks g ! i) of
                                   None \<Rightarrow> str_of_nat (i + 1) | Some b \<Rightarrow> b)
                            | Some a \<Rightarrow> a)
                  \<and> t_priority (ts' ! i) =
                      Some (case t_priority (graph_tasks g ! i) of
                              None \<Rightarrow> ''Medium'' | Some a \<Rightarrow> a)
                  \<and> t_description (ts' ! i) =
                      Some (case t_description (graph_tasks g ! i) of
                              None \<Rightarrow> ''No description provided.'' | Some a \<Rightarrow> a)
                  \<and> t_dependencies (ts' ! i) =
                      Some (case t_dependencies (graph_tasks g ! i) of
                              None \<Rightarrow> [] | Some a \<Rightarrow> a)
                  \<and> t_status (ts' ! i) =
                      Some (case t_status (graph_tasks g ! i) of
                              None \<Rightarrow> ''Not Started'' | Some a \<Rightarrow> a)
                  \<and> t_owner (ts' ! i) =
                      Some (case t_owner (graph_tasks g ! i) of
                              None \<Rightarrow> ''Unassigned'' | Some a \<Rightarrow> a)))"
proof -
  obtain ts' where v: "validate_goal_graph g = Some ts'"
      and l: "length ts' = length (graph_tasks g)"
      and n: "\<forall>i<length ts'. ts' ! i = fill_defaults i (graph_tasks g ! i)"
    using validate_goal_graph_nth [of g] by blast
  have f: "(\<forall>i<length ts'.
          t_id (ts' ! i) =
              Some (case t_id (graph_tasks g ! i) of
                      None \<Rightarrow> str_of_nat (i + 1) | Some a \<Rightarrow> a)
          \<and> t_name (ts' ! i) =
              Some (case t_name (graph_tasks g ! i) of
                      None \<Rightarrow>
                        ''Task '' @
                        (case t_id (graph_tasks g ! i) of
                           None \<Rightarrow> str_of_nat (i + 1) | Some b \<Rightarrow> b)
                    | Some a \<Rightarrow> a)
          \<and> t_priority (ts' ! i) =
              Some (case t_priority (graph_tasks g ! i) of
                      None \<Rightarrow> ''Medium'' | Some a \<Rightarrow> a)
          \<and> t_description (ts' ! i) =
              Some (case t_description (graph_tasks g ! i) of
                      None \<Rightarrow> ''No description provided.'' | Some a \<Rightarrow> a)
          \<and> t_dependencies (ts' ! i) =
              Some (case t_dependencies (graph_tasks g ! i) of
                      None \<Rightarrow> [] | Some a \<Rightarrow> a)
          \<and> t_status (ts' ! i) =
              Some (case t_status (graph_tasks g ! i) of
                      None \<Rightarrow> ''Not Started'' | Some a \<Rightarrow> a)
          \<and> t_owner (ts' ! i) =
              Some (case t_owner (graph_tasks g ! i) of
                      None \<Rightarrow> ''Unassigned'' | Some a \<Rightarrow> a))"
    using n by (simp add: fill_defaults_fields)
  have c: "(\<exists>ts'. validate_goal_graph g = Some ts' \<and> length ts' = length (graph_tasks g)
            \<and> (\<forall>i<length ts'.
          t_id (ts' ! i) =
              Some (case t_id (graph_tasks g ! i) of
                      None \<Rightarrow> str_of_nat (i + 1) | Some a \<Rightarrow> a)
          \<and> t_name (ts' ! i) =
              Some (case t_name (graph_tasks g ! i) of
                      None \<Rightarrow>
                        ''Task '' @
                        (case t_id (graph_tasks g ! i) of
                           None \<Rightarrow> str_of_nat (i + 1) | Some b \<Rightarrow> b)
                    | Some a \<Rightarrow> a)
          \<and> t_priority (ts' ! i) =
              Some (case t_priority (graph_tasks g ! i) of
                      None \<Rightarrow> ''Medium'' | Some a \<Rightarrow> a)
          \<and> t_description (ts' ! i) =
              Some (case t_description (graph_tasks g ! i) of
                      None \<Rightarrow> ''No description provided.'' | Some a \<Rightarrow> a)
          \<and> t_dependencies (ts' ! i) =
              Some (case t_dependencies (graph_tasks g ! i) of
                      None \<Rightarrow> [] | Some a \<Rightarrow> a)
          \<and> t_status (ts' ! i) =
              Some (case t_status (graph_tasks g ! i) of
                      None \<Rightarrow> ''Not Started'' | Some a \<Rightarrow> a)
          \<and> t_owner (ts' ! i) =
              Some (case t_owner (graph_tasks g ! i) of
                      None \<Rightarrow> ''Unassigned'' | Some a \<Rightarrow> a)))"
    by (intro exI [of _ ts'] conjI) (rule v, rule l, rule f)
  show ?thesis
    by (intro conjI) (rule load_after_save [OF assms], rule validate_goal_graph_idem, rule c)
qed

theorem persist_then_load_witness:
  "lock_free 0 (''graphs'' @ ''/goal_graph_'' @ ''0'' @ ''.json'') ''tasker'' 30 True w_free
   \<and> lock_free 0 (''graphs'' @ ''/latest.json'') ''tasker'' 30 True w_free
   \<and> fst (load_goal_graph ''tasker'' ''graphs'' ''latest.json'' 30 1
            (save_goal_graph ''tasker'' ''graphs'' ''0'' 30
               (validate_goal_graph (Some [task_bare])) 0 w_free))
       = Inr (validate_goal_graph (Some [task_bare]))
   \<and> validate_goal_graph (Some [task_bare]) =
       Some [task_bare\<lparr>t_priority := Some ''Medium'',
                       t_description := Some ''No description provided.'',
                       t_dependencies := Some [], t_status := Some ''Not Started'',
                       t_owner := Some ''Unassigned''\<rparr>]"
proof -
  have h1: "lock_free 0 (''graphs'' @ ''/goal_graph_'' @ ''0'' @ ''.json'') ''tasker'' 30 True w_free"
    by (rule w_free_lock_free)
  have h2: "lock_free 0 (''graphs'' @ ''/latest.json'') ''tasker'' 30 True w_free"
    by (rule w_free_lock_free)
  have v: "validate_goal_graph (Some [task_bare]) =
       Some [task_bare\<lparr>t_priority := Some ''Medium'',
                       t_description := Some ''No description provided.'',
                       t_dependencies := Some [], t_status := Some ''Not Started'',
                       t_owner := Some ''Unassigned''\<rparr>]"
    by (simp add: validate_goal_graph_def fill_defaults_def task_bare_def Let_def)
  from persist_then_load [OF h1 h2, of 1 "Some [task_bare]"] h1 h2 v show ?thesis
    by (simp only: simp_thms)
qed

lemma save_blocked:
  "files (save_goal_graph ''tasker'' ''graphs'' ''0'' 30 g 0 w_latest_locked)
      ''graphs/latest.json'' = Some (Json (Some []))
   \<and> lock_files (save_goal_graph ''tasker'' ''graphs'' ''0'' 30 g 0 w_latest_locked) 18
       = lock_files w_latest_locked 18
   \<and> flock_busy (save_goal_graph ''tasker'' ''graphs'' ''0'' 30 g 0 w_latest_locked) = {}
   \<and> path_hash (save_goal_graph ''tasker'' ''graphs'' ''0'' 30 g 0 w_latest_locked)
       = (\<lambda>p. int (length p))"
  by (simp add: save_goal_graph_def file_lock_def acquire_def check_existing_def
        expires_at_def expiry_def timedelta_ok_def datetime_ok_def dt_max_def release_def
        write_graph_def w_latest_locked_def w_free_def FileLock_init_def lock_file_path_def
        load_data_def Let_def)

text \<open>
  C8 as stated fails. \<open>coder-1\<close> holds a live exclusive record on
  \<open>graphs/latest.json\<close>, which holds the empty graph. The tasker persists the
  normalised one-task graph at time 0: the lock on \<open>latest.json\<close> is refused, the
  \<open>except Exception\<close> of \<open>_save_goal_graph\<close> logs it, and the file keeps its
  content. Loaded at 31 s, when that record has expired, \<open>latest.json\<close> gives the
  empty graph, not the normalised input.
\<close>

theorem persist_blocked_counterexample:
  "conflicting 0 (FileLock_init ''graphs/latest.json'' ''tasker'' 30) True w_latest_locked
   \<and> fst (load_goal_graph ''tasker'' ''graphs'' ''latest.json'' 30 31000000
            (save_goal_graph ''tasker'' ''graphs'' ''0'' 30
               (validate_goal_graph (Some [task_bare])) 0 w_latest_locked))
       = Inr (Some [])
   \<and> validate_goal_graph (Some [task_bare]) \<noteq> Some []"
proof -
  have c: "conflicting 0 (FileLock_init ''graphs/latest.json'' ''tasker'' 30) True
             w_latest_locked"
    by (simp add: conflicting_def stored_record_def lock_file_path_def FileLock_init_def
          w_latest_locked_def w_free_def load_data_def live_def expiry_def)
  have l: "fst (load_goal_graph ''tasker'' ''graphs'' ''latest.json'' 30 31000000
            (save_goal_graph ''tasker'' ''graphs'' ''0'' 30
               (validate_goal_graph (Some [task_bare])) 0 w_latest_locked))
       = Inr (Some [])"
    using save_blocked [of "validate_goal_graph (Some [task_bare])"]
    by (simp add: load_goal_graph_def file_lock_def acquire_def check_existing_def
          expires_at_def expiry_def timedelta_ok_def datetime_ok_def dt_max_def release_def
          read_graph_def w_latest_locked_def w_free_def FileLock_init_def lock_file_path_def
          load_data_def Let_def)
  have v: "validate_goal_graph (Some [task_bare]) \<noteq> Some []"
    by (simp add: validate_goal_graph_def)
  from c l v show ?thesis by (intro conjI)
qed

lemma load_goal_graph_missing:
  "files w (dir @ ''/'' @ filename) = None \<Longrightarrow>
   load_goal_graph self_id dir filename tmo now w = (Inr (Some []), w)"
  by (simp add: load_goal_graph_def)

text \<open>
  C9 on the code: \<open>graphs/latest.json\<close> exists and holds a valid empty graph, and
  \<open>coder-1\<close> holds a live exclusive record on it. The shared \<open>acquire\<close> inside
  \<open>file_lock\<close> raises \<open>FileLockException\<close>, which the \<open>except\<close> clause of
  \<open>load_goal_graph\<close> does not name: the exception reaches the caller.
\<close>

theorem load_goal_graph_raises:
  "fst (load_goal_graph ''tasker'' ''graphs'' ''latest.json'' 30 1000000 w_latest_locked)
     = Inl (FileLockException_locked ''coder-1'')
   \<and> files w_latest_locked (''graphs'' @ ''/'' @ ''latest.json'') = Some (Json (Some []))"
  by (simp add: load_goal_graph_def file_lock_def acquire_def check_existing_def
        expires_at_def expiry_def timedelta_ok_def datetime_ok_def dt_max_def release_def
        read_graph_def w_latest_locked_def w_free_def FileLock_init_def lock_file_path_def
        load_data_def Let_def)

section \<open>Scheduler and task state machine\<close>

lemma all_deps_completed_iff:
  "all_deps_completed completed ds \<longleftrightarrow> (\<forall>d\<in>set ds. completed d = Some ''Completed'')"
  by (induction ds) auto

lemma is_available_iff:
  "is_available st t \<longleftrightarrow>
     t_id t \<notin> dom (tasks_assigned st) \<and> get_status t \<noteq> ''Completed''
     \<and> (\<forall>d\<in>set (get_dependencies t). tasks_completed st d = Some ''Completed'')"
  by (auto simp: is_available_def Let_def all_deps_completed_iff)

lemma in_available_tasks:
  "(idx, t) \<in> set (available_tasks st tasks) \<longleftrightarrow>
     idx < length tasks \<and> tasks ! idx = t \<and> is_available st t"
  by (auto simp: available_tasks_def in_set_enumerate_eq)

lemma set_sort_available: "set (sort_available av) = set av"
  by (simp add: sort_available_def)

lemma find_task_status:
  "find_task tid k (ts[j := (ts ! j)\<lparr>t_status := s\<rparr>]) = find_task tid k ts"
proof (induction ts arbitrary: k j)
  case Nil
  then show ?case by simp
next
  case (Cons t ts)
  then show ?case by (cases j) simp_all
qed

lemma verify_fixes_isl:
  "isl (verify_fixes st task_id all_fixed) \<longleftrightarrow>
     \<not> qualitator_agent st \<or> tasks_completed st task_id \<noteq> Some ''Needs Review''
     \<or> goal_graph st = None
     \<or> find_task task_id 0 (graph_tasks (the (goal_graph st))) = None"
  by (auto simp: verify_fixes_def Let_def split: option.splits)

lemma implement_task_then:
  assumes "implement_task st task_id report = Inr st'"
  shows "tasks_completed st' task_id = Some ''Needs Review''
       \<and> qualitator_agent st' = qualitator_agent st
       \<and> goal_graph st' \<noteq> None
       \<and> find_task task_id 0 (graph_tasks (the (goal_graph st'))) \<noteq> None"
  using assms
  by (auto simp: implement_task_def Let_def graph_tasks_def find_task_status
      split: option.splits if_splits)

lemma assign_loop_assigned:
  "assign_loop agents i av (asg, ta, tasks) = (asg', ta', tasks') \<Longrightarrow>
   dom ta' = dom ta \<union> (\<lambda>(idx, t). t_id t) ` set av"
proof (induction av arbitrary: i asg ta tasks)
  case Nil
  then show ?case by simp
next
  case (Cons x rest)
  obtain idx t where x: "x = (idx, t)" by (cases x)
  from Cons.prems Cons.IH show ?case
    unfolding x by (auto simp: Let_def)
qed

lemma assign_loop_tasks:
  "assign_loop agents i av (asg, ta, tasks) = (asg', ta', tasks') \<Longrightarrow>
   length tasks' = length tasks
   \<and> (\<forall>j<length tasks. t_id (tasks' ! j) = t_id (tasks ! j))
   \<and> (\<forall>j<length tasks. j \<notin> fst ` set av \<longrightarrow> tasks' ! j = tasks ! j)"
proof (induction av arbitrary: i asg ta tasks)
  case Nil
  then show ?case by simp
next
  case (Cons x rest)
  obtain idx t where x: "x = (idx, t)" by (cases x)
  let ?tasks1 = "tasks[idx := (tasks ! idx)\<lparr>t_owner := Some (agents ! (i mod length agents)),
                                        t_status := Some ''In Progress''\<rparr>]"
  from Cons.prems obtain asg1 ta1 where
    r: "assign_loop agents (Suc i) rest (asg1, ta1, ?tasks1) = (asg', ta', tasks')"
    unfolding x by (simp add: Let_def)
  from Cons.IH [OF r] have
    l: "length tasks' = length ?tasks1"
    and a: "\<forall>j<length ?tasks1. t_id (tasks' ! j) = t_id (?tasks1 ! j)"
    and b: "\<forall>j<length ?tasks1. j \<notin> fst ` set rest \<longrightarrow> tasks' ! j = ?tasks1 ! j"
    by blast+
  have "\<forall>j<length tasks. t_id (?tasks1 ! j) = t_id (tasks ! j)"
    by (cases "idx < length tasks") (auto simp: nth_list_update)
  moreover have "\<forall>j<length tasks. j \<noteq> idx \<longrightarrow> ?tasks1 ! j = tasks ! j"
    by simp
  ultimately show ?case using l a b unfolding x by auto
qed

lemma assign_loop_assignments:
  assumes "agents \<noteq> []"
  shows "assign_loop agents i av (asg, ta, tasks) = (asg', ta', tasks') \<Longrightarrow>
   assigned_ids agents asg' = assigned_ids agents asg + mset (map (\<lambda>(idx, t). t_id t) av)"
proof (induction av arbitrary: i asg ta tasks)
  case Nil
  then show ?case by simp
next
  case (Cons x rest)
  obtain idx t where x: "x = (idx, t)" by (cases x)
  let ?a = "agents ! (i mod length agents)"
  let ?asg1 = "asg(?a \<mapsto> the (asg ?a) @ [t_id t])"
  have mem: "?a \<in> set agents" using assms by simp
  from Cons.prems obtain ta1 tasks1 where
    r: "assign_loop agents (Suc i) rest (?asg1, ta1, tasks1) = (asg', ta', tasks')"
    unfolding x by (simp add: Let_def)
  have "assigned_ids agents ?asg1
          = mset (the (?asg1 ?a)) + (\<Sum>a\<in>set agents - {?a}. mset (the (?asg1 a)))"
    unfolding assigned_ids_def using mem by (simp add: sum.remove)
  also have "(\<Sum>a\<in>set agents - {?a}. mset (the (?asg1 a)))
          = (\<Sum>a\<in>set agents - {?a}. mset (the (asg a)))"
    by (rule sum.cong) auto
  also have "mset (the (?asg1 ?a)) = mset (the (asg ?a)) + {#t_id t#}" by simp
  finally have step: "assigned_ids agents ?asg1 = assigned_ids agents asg + {#t_id t#}"
    unfolding assigned_ids_def using mem by (simp add: sum.remove)
  have "assigned_ids agents asg'
          = assigned_ids agents ?asg1 + mset (map (\<lambda>(idx, t). t_id t) rest)"
    by (rule Cons.IH [OF r])
  then have "assigned_ids agents asg'
          = (assigned_ids agents asg + {#t_id t#}) + mset (map (\<lambda>(idx, t). t_id t) rest)"
    by (simp only: step)
  then show ?case unfolding x by simp
qed

lemma assigned_ids_init: "assigned_ids agents (init_assignments agents) = {#}"
  by (simp add: assigned_ids_def init_assignments_def)

lemma available_ids_subset:
  "mset (map (\<lambda>(idx, t). t_id t) (sort_available (available_tasks st tasks)))
     \<subseteq># mset (map t_id tasks)"
proof -
  have f: "(\<lambda>(idx, t). t_id t) = t_id \<circ> (snd :: nat \<times> task \<Rightarrow> task)"
    by auto
  have "mset (sort_available (available_tasks st tasks)) = mset (available_tasks st tasks)"
    by (simp add: sort_available_def)
  then have "mset (map (t_id \<circ> snd) (sort_available (available_tasks st tasks)))
           = image_mset (t_id \<circ> snd) (mset (available_tasks st tasks))"
    by (metis mset_map)
  also have "\<dots> \<subseteq># image_mset (t_id \<circ> snd) (mset (enumerate 0 tasks))"
    unfolding available_tasks_def
    by (intro image_mset_subseteq_mono) simp
  also have "image_mset (t_id \<circ> snd) (mset (enumerate 0 tasks)) = mset (map t_id tasks)"
  proof -
    have "map (t_id \<circ> snd) (enumerate 0 tasks) = map t_id (map snd (enumerate 0 tasks))"
      by (simp only: map_map)
    then have "map (t_id \<circ> snd) (enumerate 0 tasks) = map t_id tasks"
      by (simp only: map_snd_enumerate)
    then show ?thesis by (metis mset_map)
  qed
  finally show ?thesis unfolding f .
qed

lemma assign_tasks_Inr:
  assumes "assign_tasks st = Inr (a1, st1)"
  shows "\<exists>g tasks'. coder_agents st \<noteq> [] \<and> goal_graph st = Some g \<and> goal_graph_approved st
          \<and> assign_loop (coder_agents st) 0
                (sort_available (available_tasks st (graph_tasks g)))
                (init_assignments (coder_agents st), tasks_assigned st, graph_tasks g)
              = (a1, tasks_assigned st1, tasks')
          \<and> st1 = st\<lparr>goal_graph := Some (case g of None \<Rightarrow> None | Some ts \<Rightarrow> Some tasks'),
                       tasks_assigned := tasks_assigned st1,
                       current_stage := ''tasks_assigned''\<rparr>
          \<and> graph_tasks (the (goal_graph st1)) = tasks'"
proof -
  from assms obtain g where g: "goal_graph st = Some g" and ne: "coder_agents st \<noteq> []"
    and ap: "goal_graph_approved st"
    by (auto simp: assign_tasks_def split: option.splits if_splits)
  obtain a ta tasks' where
    l: "assign_loop (coder_agents st) 0 (sort_available (available_tasks st (graph_tasks g)))
          (init_assignments (coder_agents st), tasks_assigned st, graph_tasks g) = (a, ta, tasks')"
    by (metis prod_cases3)
  from assms g ne ap l have a1: "a1 = a"
    and s1: "st1 = st\<lparr>goal_graph := Some (case g of None \<Rightarrow> None | Some ts \<Rightarrow> Some tasks'),
                       tasks_assigned := ta, current_stage := ''tasks_assigned''\<rparr>"
    by (simp_all add: assign_tasks_def Let_def)
  have ta: "tasks_assigned st1 = ta" by (simp add: s1)
  have "graph_tasks (the (goal_graph st1)) = tasks'"
  proof (cases g)
    case None
    with l have "tasks' = []"
      by (simp add: graph_tasks_def available_tasks_def sort_available_def)
    with None show ?thesis by (simp add: s1 graph_tasks_def)
  next
    case (Some ts)
    then show ?thesis by (simp add: s1 graph_tasks_def)
  qed
  with g ne ap l a1 s1 ta show ?thesis by auto
qed

lemma available_after_assign:
  assumes l: "assign_loop agents i (sort_available (available_tasks st tasks))
                (asg, tasks_assigned st, tasks) = (asg', ta', tasks')"
    and ta: "tasks_assigned st1 = ta'" and tc: "tasks_completed st1 = tasks_completed st"
  shows "available_tasks st1 tasks' = []"
proof -
  let ?av = "sort_available (available_tasks st tasks)"
  have d: "dom ta' = dom (tasks_assigned st) \<union> (\<lambda>(idx, t). t_id t) ` set ?av"
    by (rule assign_loop_assigned [OF l])
  have len: "length tasks' = length tasks"
    and ids: "\<forall>j<length tasks. t_id (tasks' ! j) = t_id (tasks ! j)"
    and same: "\<forall>j<length tasks. j \<notin> fst ` set ?av \<longrightarrow> tasks' ! j = tasks ! j"
    using assign_loop_tasks [OF l] by blast+
  have "\<not> is_available st1 (tasks' ! j)" if j: "j < length tasks'" for j
  proof (cases "j \<in> fst ` set ?av")
    case True
    then obtain t where "(j, t) \<in> set ?av" by force
    then have "t_id t \<in> dom ta'" and "tasks ! j = t"
      using d by (auto simp: set_sort_available in_available_tasks)
    with ids j len have "t_id (tasks' ! j) \<in> dom (tasks_assigned st1)"
      by (simp add: ta)
    then show ?thesis by (simp add: is_available_iff)
  next
    case False
    with same j len have e: "tasks' ! j = tasks ! j" by simp
    have "\<not> is_available st (tasks ! j)"
    proof
      assume "is_available st (tasks ! j)"
      with j len have "(j, tasks ! j) \<in> set ?av"
        by (simp add: set_sort_available in_available_tasks)
      then have "fst (j, tasks ! j) \<in> fst ` set ?av" by (rule imageI)
      with False show False by simp
    qed
    then have "\<not> is_available st1 (tasks ! j)"
      using d by (auto simp: is_available_iff ta tc)
    with e show ?thesis by simp
  qed
  then show ?thesis
    by (auto simp: available_tasks_def filter_empty_conv in_set_enumerate_eq)
qed

lemma assigned_ids_first_call:
  assumes "assign_tasks st = Inr (a1, st1)"
  shows "assigned_ids (coder_agents st) a1 =
           mset (map (\<lambda>(idx, t). t_id t)
                  (sort_available (available_tasks st (graph_tasks (the (goal_graph st))))))"
proof -
  from assign_tasks_Inr [OF assms] obtain g tasks' where
    ne: "coder_agents st \<noteq> []" and g: "goal_graph st = Some g"
    and l: "assign_loop (coder_agents st) 0
                (sort_available (available_tasks st (graph_tasks g)))
                (init_assignments (coder_agents st), tasks_assigned st, graph_tasks g)
              = (a1, tasks_assigned st1, tasks')"
    by blast
  from assign_loop_assignments [OF ne l] g show ?thesis
    by (simp add: assigned_ids_init)
qed

lemma st_abc_assign:
  "case assign_tasks st_abc of
     Inl e \<Rightarrow> False
   | Inr (a, st1) \<Rightarrow> a ''c1'' = Some [Some ''B''] \<and> a ''c2'' = Some [Some ''C'']"
  by (simp add: assign_tasks_def st_abc_def mk_manager_def mk_task_def graph_tasks_def
        available_tasks_def is_available_def get_status_def get_dependencies_def
        get_priority_def priority_map_def sort_key_of_def sort_available_def
        init_assignments_def Let_def)

lemma default_id_graph:
  "map t_id (graph_tasks (validate_goal_graph (Some [task_two, task_no_id])))
     = [Some ''2'', Some ''2'']"
  by (simp add: validate_goal_graph_def graph_tasks_def fill_defaults_def task_two_def
        task_no_id_def Let_def str_of_nat.simps [of 2] digit_char_def)

lemma st_default_id_assign:
  "case assign_tasks st_default_id of
     Inl e \<Rightarrow> False
   | Inr (a, st1) \<Rightarrow> a ''c1'' = Some [Some ''2''] \<and> a ''c2'' = Some [Some ''2'']
        \<and> tasks_assigned st1 (Some ''2'') = Some ''c2''"
  by (simp add: assign_tasks_def st_default_id_def mk_manager_def graph_tasks_def
        validate_goal_graph_def fill_defaults_def task_two_def task_no_id_def
        str_of_nat.simps [of 2] digit_char_def
        available_tasks_def is_available_def get_status_def get_dependencies_def
        get_priority_def priority_map_def sort_key_of_def sort_available_def
        init_assignments_def Let_def)

lemma st_same_id_assign:
  "case assign_tasks st_same_id of
     Inl e \<Rightarrow> False
   | Inr (a, st1) \<Rightarrow> a ''c1'' = Some [Some ''X'']
        \<and> find_task ''X'' 0 (graph_tasks (the (goal_graph st1))) = Some 0
        \<and> get_dependencies (graph_tasks (the (goal_graph st1)) ! 0) = [''Y'']
        \<and> tasks_completed st1 ''Y'' = None
        \<and> (case implement_task st1 ''X'' (Some []) of
              Inl e \<Rightarrow> False
            | Inr st2 \<Rightarrow>
                map t_status (graph_tasks (the (goal_graph st2)))
                  = [Some ''Needs Review'', Some ''In Progress''])"
  by (simp add: assign_tasks_def implement_task_def st_same_id_def mk_manager_def mk_task_def
        graph_tasks_def str_of_id_def
        available_tasks_def is_available_def get_status_def get_dependencies_def
        get_priority_def priority_map_def sort_key_of_def sort_available_def
        init_assignments_def Let_def)

lemma assigned_ids_two:
  assumes "a \<in> set agents" and "b \<in> set agents" and "a \<noteq> b"
    and "tid \<in> set (the (asg a))" and "tid \<in> set (the (asg b))"
  shows "2 \<le> count (assigned_ids agents asg) tid"
proof -
  have b: "b \<in> set agents - {a}" using assms(2,3) by simp
  have "assigned_ids agents asg
          = mset (the (asg a)) + (\<Sum>x\<in>set agents - {a}. mset (the (asg x)))"
    unfolding assigned_ids_def using assms(1) by (simp add: sum.remove)
  also have "(\<Sum>x\<in>set agents - {a}. mset (the (asg x)))
          = mset (the (asg b)) + (\<Sum>x\<in>set agents - {a} - {b}. mset (the (asg x)))"
    using b by (simp add: sum.remove)
  finally have "count (assigned_ids agents asg) tid
          = count (mset (the (asg a))) tid + count (mset (the (asg b))) tid
            + count (\<Sum>x\<in>set agents - {a} - {b}. mset (the (asg x))) tid"
    by simp
  moreover have "1 \<le> count (mset (the (asg a))) tid" "1 \<le> count (mset (the (asg b))) tid"
    using assms(4,5) by (simp_all add: Suc_le_eq)
  ultimately show ?thesis by linarith
qed

text \<open>
  C7, as the code has it. When a call of \<open>assign_tasks\<close> returns, a second call right
  after it returns too, hands every worker the empty list and leaves the manager as it
  is: whatever the first call assigned is in \<open>tasks_assigned\<close> and skipped, and
  nothing else became available. So the second call assigns no task at all, in
  particular none that is In Progress or Completed. The ids the first call hands out
  over all workers form a sub-multiset of the ids of the graph's tasks. So in a graph
  whose task ids are distinct, every id is handed out at most once over both calls, and
  no id is in the lists of two workers.
\<close>

theorem assign_tasks_twice:
  assumes "assign_tasks st = Inr (a1, st1)"
  shows "assign_tasks st1 = Inr (init_assignments (coder_agents st), st1)
       \<and> assigned_ids (coder_agents st) (init_assignments (coder_agents st)) = {#}
       \<and> assigned_ids (coder_agents st) a1
            \<subseteq># mset (map t_id (graph_tasks (the (goal_graph st))))
       \<and> (distinct (map t_id (graph_tasks (the (goal_graph st))))
            \<longrightarrow> (\<forall>tid. count (assigned_ids (coder_agents st) a1) tid \<le> 1)
               \<and> (\<forall>a b tid. a \<in> set (coder_agents st) \<and> b \<in> set (coder_agents st)
                      \<and> tid \<in> set (the (a1 a)) \<and> tid \<in> set (the (a1 b))
                      \<longrightarrow> a = b))"
proof -
  from assign_tasks_Inr [OF assms] obtain g tasks' where
    ne: "coder_agents st \<noteq> []" and g: "goal_graph st = Some g"
    and ap: "goal_graph_approved st"
    and l: "assign_loop (coder_agents st) 0
                (sort_available (available_tasks st (graph_tasks g)))
                (init_assignments (coder_agents st), tasks_assigned st, graph_tasks g)
              = (a1, tasks_assigned st1, tasks')"
    and s1: "st1 = st\<lparr>goal_graph := Some (case g of None \<Rightarrow> None | Some ts \<Rightarrow> Some tasks'),
                       tasks_assigned := tasks_assigned st1,
                       current_stage := ''tasks_assigned''\<rparr>"
    and gt: "graph_tasks (the (goal_graph st1)) = tasks'"
    by blast
  have tc: "tasks_completed st1 = tasks_completed st"
    by (subst s1) simp
  have av: "available_tasks st1 tasks' = []"
    by (rule available_after_assign [OF l refl tc])
  have ca: "coder_agents st1 = coder_agents st" and ap1: "goal_graph_approved st1"
    and cs: "current_stage st1 = ''tasks_assigned''"
    using ap by (subst s1, simp)+
  have "goal_graph st1 = Some (case g of None \<Rightarrow> None | Some ts \<Rightarrow> Some tasks')"
    by (subst s1) simp
  then obtain g1 where g1: "goal_graph st1 = Some g1" by blast
  have keep: "(case g1 of None \<Rightarrow> None | Some ts \<Rightarrow> Some tasks') = g1"
    using gt g1 by (cases g1) (simp_all add: graph_tasks_def)
  have second: "assign_tasks st1 = Inr (init_assignments (coder_agents st), st1)"
    using ne ca ap1 cs g1 gt av keep
    by (simp add: assign_tasks_def Let_def sort_available_def)
  have sub: "assigned_ids (coder_agents st) a1
               \<subseteq># mset (map t_id (graph_tasks (the (goal_graph st))))"
    unfolding assigned_ids_first_call [OF assms] by (rule available_ids_subset)
  have once: "count (assigned_ids (coder_agents st) a1) tid \<le> 1"
    if "distinct (map t_id (graph_tasks (the (goal_graph st))))" for tid
  proof -
    have "count (assigned_ids (coder_agents st) a1) tid
            \<le> count (mset (map t_id (graph_tasks (the (goal_graph st))))) tid"
      using sub by (rule mset_subset_eq_count)
    also have "\<dots> \<le> 1"
      using that by (simp add: distinct_count_atmost_1)
    finally show ?thesis .
  qed
  have one_worker: "a = b"
    if d: "distinct (map t_id (graph_tasks (the (goal_graph st))))"
      and m: "a \<in> set (coder_agents st)" "b \<in> set (coder_agents st)"
        "tid \<in> set (the (a1 a))" "tid \<in> set (the (a1 b))" for a b tid
  proof (rule ccontr)
    assume "a \<noteq> b"
    from assigned_ids_two [OF m(1,2) this m(3,4)] once [OF d, of tid]
    show False by simp
  qed
  from second sub once one_worker show ?thesis
    by (simp add: assigned_ids_init) blast
qed

theorem assign_tasks_twice_witness:
  "assign_tasks st_abc = Inr (fst abc_first, snd abc_first)
   \<and> fst abc_first ''c1'' = Some [Some ''B''] \<and> fst abc_first ''c2'' = Some [Some ''C'']
   \<and> assign_tasks (snd abc_first) = Inr (init_assignments [''c1'', ''c2''], snd abc_first)
   \<and> init_assignments [''c1'', ''c2''] ''c1'' = Some []
   \<and> init_assignments [''c1'', ''c2''] ''c2'' = Some []
   \<and> distinct (map t_id (graph_tasks (the (goal_graph st_abc))))
   \<and> (\<forall>tid. count (assigned_ids [''c1'', ''c2''] (fst abc_first)) tid \<le> 1)
   \<and> Some ''B'' \<notin> set (the (fst abc_first ''c2''))"
proof -
  have h: "assign_tasks st_abc = Inr (fst abc_first, snd abc_first)"
    and c: "fst abc_first ''c1'' = Some [Some ''B'']" "fst abc_first ''c2'' = Some [Some ''C'']"
    using st_abc_assign unfolding abc_first_def
    by (cases "assign_tasks st_abc"; simp split: prod.splits)+
  have ca: "coder_agents st_abc = [''c1'', ''c2'']"
    by (simp add: st_abc_def mk_manager_def)
  have d: "distinct (map t_id (graph_tasks (the (goal_graph st_abc))))"
    by (simp add: st_abc_def mk_manager_def mk_task_def graph_tasks_def)
  note T = assign_tasks_twice [OF h, unfolded ca]
  have second: "assign_tasks (snd abc_first) = Inr (init_assignments [''c1'', ''c2''], snd abc_first)"
    by (rule T [THEN conjunct1])
  have "(\<forall>tid. count (assigned_ids [''c1'', ''c2''] (fst abc_first)) tid \<le> 1)
          \<and> (\<forall>a b tid. a \<in> set [''c1'', ''c2''] \<and> b \<in> set [''c1'', ''c2'']
                 \<and> tid \<in> set (the (fst abc_first a)) \<and> tid \<in> set (the (fst abc_first b))
                 \<longrightarrow> a = b)"
    by (rule T [THEN conjunct2, THEN conjunct2, THEN conjunct2, THEN mp, OF d])
  then have once: "\<forall>tid. count (assigned_ids [''c1'', ''c2''] (fst abc_first)) tid \<le> 1"
    by (rule conjunct1)
  have i1: "init_assignments [''c1'', ''c2''] ''c1'' = Some []"
    and i2: "init_assignments [''c1'', ''c2''] ''c2'' = Some []"
    by (simp_all add: init_assignments_def)
  have nb: "Some ''B'' \<notin> set (the (fst abc_first ''c2''))"
    by (simp add: c(2))
  show ?thesis
    by (intro conjI) (rule h, rule c(1), rule c(2), rule second, rule i1, rule i2, rule d,
        rule once, rule nb)
qed

text \<open>
  C7 as stated fails. The graph is the normalisation of a task with the id \<open>2\<close>
  followed by a task without id, which gets the default id \<open>2\<close> as well. One call
  of \<open>assign_tasks\<close> hands the id \<open>2\<close> to both workers, and \<open>tasks_assigned\<close>
  keeps the second worker only.
\<close>

theorem same_id_two_workers_counterexample:
  "map t_id (graph_tasks (the (goal_graph st_default_id))) = [Some ''2'', Some ''2'']
   \<and> (case assign_tasks st_default_id of
         Inl e \<Rightarrow> False
       | Inr (a, st1) \<Rightarrow> a ''c1'' = Some [Some ''2''] \<and> a ''c2'' = Some [Some ''2'']
            \<and> tasks_assigned st1 (Some ''2'') = Some ''c2'')"
proof -
  have "map t_id (graph_tasks (the (goal_graph st_default_id))) = [Some ''2'', Some ''2'']"
    using default_id_graph by (simp add: st_default_id_def mk_manager_def graph_tasks_def)
  with st_default_id_assign show ?thesis by (intro conjI)
qed

text \<open>
  C6, as the code has it. A task of the graph is selected as available exactly when
  its id is not a key of \<open>tasks_assigned\<close>, its status is not \<open>Completed\<close>, and
  every one of its dependency ids is recorded \<open>Completed\<close> in \<open>tasks_completed\<close>
  (no dependency qualifies trivially). Consequently, when \<open>assign_tasks\<close> returns:
  the ids it hands out over all workers are, one for one, the ids of the selected
  entries of the graph; every entry of the graph that the call changes is a selected
  one, so all its dependencies are completed; and in a graph whose task ids are
  distinct, every task whose id is handed out has all its dependencies completed.
\<close>

theorem ready_set_iff:
  "((idx, t) \<in> set (available_tasks st tasks) \<longleftrightarrow>
      idx < length tasks \<and> tasks ! idx = t
      \<and> t_id t \<notin> dom (tasks_assigned st) \<and> get_status t \<noteq> ''Completed''
      \<and> (\<forall>d\<in>set (get_dependencies t). tasks_completed st d = Some ''Completed''))
   \<and> (assign_tasks st = Inr (a1, st1) \<longrightarrow>
        assigned_ids (coder_agents st) a1 =
          image_mset (\<lambda>(j, t'). t_id t')
            (mset (available_tasks st (graph_tasks (the (goal_graph st)))))
        \<and> (\<forall>j<length (graph_tasks (the (goal_graph st))).
              graph_tasks (the (goal_graph st1)) ! j \<noteq> graph_tasks (the (goal_graph st)) ! j
              \<longrightarrow> (j, graph_tasks (the (goal_graph st)) ! j)
                    \<in> set (available_tasks st (graph_tasks (the (goal_graph st)))))
        \<and> (distinct (map t_id (graph_tasks (the (goal_graph st)))) \<longrightarrow>
             (\<forall>t'\<in>set (graph_tasks (the (goal_graph st))).
                t_id t' \<in># assigned_ids (coder_agents st) a1 \<longrightarrow>
                (\<forall>d\<in>set (get_dependencies t').
                   tasks_completed st d = Some ''Completed''))))"
proof -
  let ?ts = "graph_tasks (the (goal_graph st))"
  let ?av = "available_tasks st ?ts"
  have first: "(idx, t) \<in> set (available_tasks st tasks) \<longleftrightarrow>
      idx < length tasks \<and> tasks ! idx = t
      \<and> t_id t \<notin> dom (tasks_assigned st) \<and> get_status t \<noteq> ''Completed''
      \<and> (\<forall>d\<in>set (get_dependencies t). tasks_completed st d = Some ''Completed'')"
    by (auto simp: in_available_tasks is_available_iff)
  have ids: "assigned_ids (coder_agents st) a1 = image_mset (\<lambda>(j, t'). t_id t') (mset ?av)"
    if a: "assign_tasks st = Inr (a1, st1)"
  proof -
    have "mset (sort_available ?av) = mset ?av"
      by (simp add: sort_available_def)
    then have "mset (map (\<lambda>(j, t'). t_id t') (sort_available ?av))
                 = image_mset (\<lambda>(j, t'). t_id t') (mset ?av)"
      by (metis mset_map)
    then show ?thesis
      by (simp only: assigned_ids_first_call [OF a])
  qed
  have changed: "(j, ?ts ! j) \<in> set ?av"
    if a: "assign_tasks st = Inr (a1, st1)" and j: "j < length ?ts"
      and ne: "graph_tasks (the (goal_graph st1)) ! j \<noteq> ?ts ! j" for j
  proof -
    from assign_tasks_Inr [OF a] obtain g tasks' where g: "goal_graph st = Some g"
      and l: "assign_loop (coder_agents st) 0 (sort_available (available_tasks st (graph_tasks g)))
                (init_assignments (coder_agents st), tasks_assigned st, graph_tasks g)
              = (a1, tasks_assigned st1, tasks')"
      and gt: "graph_tasks (the (goal_graph st1)) = tasks'"
      by blast
    from assign_loop_tasks [OF l] g
    have "\<forall>j<length ?ts. j \<notin> fst ` set (sort_available ?av) \<longrightarrow> tasks' ! j = ?ts ! j"
      by simp
    with j ne gt have "j \<in> fst ` set ?av"
      by (auto simp: set_sort_available)
    then obtain t' where "(j, t') \<in> set ?av" by force
    then show ?thesis by (simp add: in_available_tasks)
  qed
  have deps: "\<forall>d\<in>set (get_dependencies t'). tasks_completed st d = Some ''Completed''"
    if a: "assign_tasks st = Inr (a1, st1)" and d: "distinct (map t_id ?ts)"
      and t': "t' \<in> set ?ts" and m: "t_id t' \<in># assigned_ids (coder_agents st) a1" for t'
  proof -
    from m obtain j u where ju: "(j, u) \<in> set ?av" and e: "t_id u = t_id t'"
      unfolding ids [OF a] by auto
    then have u: "u \<in> set ?ts" and av: "is_available st u"
      by (auto simp: in_available_tasks)
    from d u t' e have "u = t'"
      by (meson distinct_map inj_onD)
    with av show ?thesis by (simp add: is_available_iff)
  qed
  have second: "assign_tasks st = Inr (a1, st1) \<longrightarrow>
        assigned_ids (coder_agents st) a1 = image_mset (\<lambda>(j, t'). t_id t') (mset ?av)
        \<and> (\<forall>j<length ?ts.
              graph_tasks (the (goal_graph st1)) ! j \<noteq> ?ts ! j \<longrightarrow> (j, ?ts ! j) \<in> set ?av)
        \<and> (distinct (map t_id ?ts) \<longrightarrow>
             (\<forall>t'\<in>set ?ts.
                t_id t' \<in># assigned_ids (coder_agents st) a1 \<longrightarrow>
                (\<forall>d\<in>set (get_dependencies t').
                   tasks_completed st d = Some ''Completed'')))"
  proof (intro impI conjI allI ballI)
    assume a: "assign_tasks st = Inr (a1, st1)"
    show "assigned_ids (coder_agents st) a1 = image_mset (\<lambda>(j, t'). t_id t') (mset ?av)"
      by (rule ids [OF a])
  next
    fix j
    assume "assign_tasks st = Inr (a1, st1)" and "j < length ?ts"
      and "graph_tasks (the (goal_graph st1)) ! j \<noteq> ?ts ! j"
    then show "(j, ?ts ! j) \<in> set ?av" by (rule changed)
  next
    fix t' d
    assume "assign_tasks st = Inr (a1, st1)" and "distinct (map t_id ?ts)"
      and "t' \<in> set ?ts" and "t_id t' \<in># assigned_ids (coder_agents st) a1"
    then have "\<forall>d\<in>set (get_dependencies t'). tasks_completed st d = Some ''Completed''"
      by (rule deps)
    moreover assume "d \<in> set (get_dependencies t')"
    ultimately show "tasks_completed st d = Some ''Completed''" by (rule bspec)
  qed
  show ?thesis
    by (rule conjI [OF first second])
qed

theorem ready_set_iff_witness:
  "(1, mk_task ''B'' ''Medium'' [''A''] ''Not Started'')
      \<in> set (available_tasks st_abc (graph_tasks (the (goal_graph st_abc))))
   \<and> (0, mk_task ''A'' ''Medium'' [] ''Completed'')
      \<notin> set (available_tasks st_abc (graph_tasks (the (goal_graph st_abc))))
   \<and> assign_tasks st_abc = Inr (fst abc_first, snd abc_first)
   \<and> distinct (map t_id (graph_tasks (the (goal_graph st_abc))))
   \<and> mk_task ''B'' ''Medium'' [''A''] ''Not Started''
        \<in> set (graph_tasks (the (goal_graph st_abc)))
   \<and> t_id (mk_task ''B'' ''Medium'' [''A''] ''Not Started'')
        \<in># assigned_ids (coder_agents st_abc) (fst abc_first)
   \<and> get_dependencies (mk_task ''B'' ''Medium'' [''A''] ''Not Started'') = [''A'']
   \<and> tasks_completed st_abc ''A'' = Some ''Completed''"
proof -
  let ?B = "mk_task ''B'' ''Medium'' [''A''] ''Not Started''"
  let ?A = "mk_task ''A'' ''Medium'' [] ''Completed''"
  let ?ts = "graph_tasks (the (goal_graph st_abc))"
  have h: "assign_tasks st_abc = Inr (fst abc_first, snd abc_first)"
    and c: "fst abc_first ''c1'' = Some [Some ''B'']"
    using st_abc_assign unfolding abc_first_def
    by (cases "assign_tasks st_abc"; simp split: prod.splits)+
  have f: "tasks_assigned st_abc = [Some ''A'' \<mapsto> ''c1'']"
      "tasks_completed st_abc = [''A'' \<mapsto> ''Completed'']"
      "?ts = [?A, ?B, mk_task ''C'' ''Medium'' [''A''] ''Not Started'']"
    by (simp_all add: st_abc_def mk_manager_def graph_tasks_def)
  have d: "distinct (map t_id ?ts)"
    by (simp add: f mk_task_def)
  have inB: "?B \<in> set ?ts" by (simp add: f)
  have m: "t_id ?B \<in># assigned_ids (coder_agents st_abc) (fst abc_first)"
    using c by (simp add: assigned_ids_def st_abc_def mk_manager_def mk_task_def)
  have depB: "get_dependencies ?B = [''A'']"
    by (simp add: mk_task_def get_dependencies_def)
  note T1 = ready_set_iff [of 1 ?B st_abc ?ts "fst abc_first" "snd abc_first"]
  note T0 = ready_set_iff [of 0 ?A st_abc ?ts "fst abc_first" "snd abc_first"]
  have avB: "(1, ?B) \<in> set (available_tasks st_abc ?ts)"
    unfolding T1 [THEN conjunct1]
    by (simp add: f mk_task_def get_status_def get_dependencies_def)
  have avA: "(0, ?A) \<notin> set (available_tasks st_abc ?ts)"
    unfolding T0 [THEN conjunct1]
    by (simp add: f mk_task_def get_status_def get_dependencies_def)
  have "\<forall>d\<in>set (get_dependencies ?B). tasks_completed st_abc d = Some ''Completed''"
    by (rule T1 [THEN conjunct2, THEN mp, OF h, THEN conjunct2, THEN conjunct2, THEN mp, OF d,
                 THEN bspec, OF inB, THEN mp, OF m])
  then have compA: "tasks_completed st_abc ''A'' = Some ''Completed''"
    by (simp add: depB)
  show ?thesis
    by (intro conjI) (rule avB, rule avA, rule h, rule d, rule inB, rule m, rule depB,
        rule compA)
qed

text \<open>
  C6 as stated fails. A task sent back by the review has the status \<open>Needs Fixes\<close>,
  neither In Progress nor Completed, and no dependency, yet it is not selected,
  because it is still in \<open>tasks_assigned\<close>. A task of a loaded graph whose status is
  \<open>In Progress\<close> is selected when the manager has not assigned it. And when two
  tasks share the id \<open>X\<close>, the first waiting for the uncompleted \<open>Y\<close> and the
  second for nothing, the id \<open>X\<close> is handed out, and \<open>implement_task\<close> on \<open>X\<close>
  then runs the first one, whose dependency is not completed.
\<close>

theorem ready_set_counterexample:
  "get_status (mk_task ''T'' ''High'' [] ''Needs Fixes'') = ''Needs Fixes''
   \<and> get_dependencies (mk_task ''T'' ''High'' [] ''Needs Fixes'') = []
   \<and> available_tasks st_needs_fixes (graph_tasks (the (goal_graph st_needs_fixes))) = []
   \<and> get_status (mk_task ''T'' ''High'' [] ''In Progress'') = ''In Progress''
   \<and> available_tasks st_in_progress (graph_tasks (the (goal_graph st_in_progress)))
       = [(0, mk_task ''T'' ''High'' [] ''In Progress'')]
   \<and> (case assign_tasks st_same_id of
         Inl e \<Rightarrow> False
       | Inr (a, st1) \<Rightarrow> a ''c1'' = Some [Some ''X'']
            \<and> find_task ''X'' 0 (graph_tasks (the (goal_graph st1))) = Some 0
            \<and> get_dependencies (graph_tasks (the (goal_graph st1)) ! 0) = [''Y'']
            \<and> tasks_completed st1 ''Y'' = None
            \<and> (case implement_task st1 ''X'' (Some []) of
                  Inl e \<Rightarrow> False
                | Inr st2 \<Rightarrow>
                    map t_status (graph_tasks (the (goal_graph st2)))
                      = [Some ''Needs Review'', Some ''In Progress'']))"
proof -
  have "get_status (mk_task ''T'' ''High'' [] ''Needs Fixes'') = ''Needs Fixes''
   \<and> get_dependencies (mk_task ''T'' ''High'' [] ''Needs Fixes'') = []
   \<and> available_tasks st_needs_fixes (graph_tasks (the (goal_graph st_needs_fixes))) = []
   \<and> get_status (mk_task ''T'' ''High'' [] ''In Progress'') = ''In Progress''
   \<and> available_tasks st_in_progress (graph_tasks (the (goal_graph st_in_progress)))
       = [(0, mk_task ''T'' ''High'' [] ''In Progress'')]"
    by (simp add: st_needs_fixes_def st_in_progress_def mk_manager_def mk_task_def
          graph_tasks_def available_tasks_def is_available_def get_status_def
          get_dependencies_def Let_def)
  with st_same_id_assign show ?thesis by (simp only: simp_thms)
qed

text \<open>
  C3 on the code: the sort is ascending in the rank (High 3, Medium 2, Low 1), so of a
  ready High task \<open>A\<close> and a ready Low task \<open>B\<close> the Low one comes first and is
  handed out first.
\<close>

theorem low_priority_sorted_first:
  "sort_available (available_tasks st_high_low (graph_tasks (the (goal_graph st_high_low))))
     = [(1, mk_task ''B'' ''Low'' [] ''Not Started''),
        (0, mk_task ''A'' ''High'' [] ''Not Started'')]
   \<and> (case assign_tasks st_high_low of
         Inl e \<Rightarrow> False
       | Inr (a, st1) \<Rightarrow> a ''c1'' = Some [Some ''B'', Some ''A''])"
  by (simp add: assign_tasks_def st_high_low_def mk_manager_def mk_task_def graph_tasks_def
        available_tasks_def is_available_def get_status_def get_dependencies_def
        get_priority_def priority_map_def sort_key_of_def sort_available_def
        init_assignments_def Let_def)

lemma verify_fixes_ValueError:
  "(\<exists>e. verify_fixes st task_id all_fixed = Inl e \<and> is_ValueError e) \<longleftrightarrow>
     \<not> qualitator_agent st \<or> tasks_completed st task_id \<noteq> Some ''Needs Review''
     \<or> (\<exists>g. goal_graph st = Some g \<and> find_task task_id 0 (graph_tasks g) = None)"
  by (auto simp: verify_fixes_def is_ValueError_def Let_def split: option.splits)

lemma verify_fixes_AttributeError:
  "verify_fixes st task_id all_fixed = Inl AttributeError \<longleftrightarrow>
     qualitator_agent st \<and> tasks_completed st task_id = Some ''Needs Review''
     \<and> goal_graph st = None"
  by (auto simp: verify_fixes_def Let_def split: option.splits)

lemma verify_fixes_proceeds:
  "\<not> isl (verify_fixes st task_id all_fixed) \<longleftrightarrow>
     qualitator_agent st \<and> tasks_completed st task_id = Some ''Needs Review''
     \<and> (\<exists>g. goal_graph st = Some g \<and> find_task task_id 0 (graph_tasks g) \<noteq> None)"
  by (auto simp: verify_fixes_def Let_def split: option.splits)

text \<open>
  C4, as the code has it. \<open>verify_fixes\<close> aborts with a \<open>ValueError\<close> exactly when
  the qualitator agent is not initialised, or the status recorded for the task in
  \<open>tasks_completed\<close> is not \<open>Needs Review\<close>, or the goal graph has no task with
  that id. It proceeds exactly when the qualitator agent is initialised, the recorded
  status is \<open>Needs Review\<close> and the goal graph holds the task. (What is left is a
  manager without goal graph, where the lookup raises \<open>AttributeError\<close>.) The
  record does not tell how \<open>Needs Review\<close> was set: right after a successful
  \<open>implement_task\<close>, with no review and no fix in between, \<open>verify_fixes\<close> does
  not abort.
\<close>

theorem verify_fixes_guard:
  "((\<exists>e. verify_fixes st task_id all_fixed = Inl e \<and> is_ValueError e) \<longleftrightarrow>
      \<not> qualitator_agent st \<or> tasks_completed st task_id \<noteq> Some ''Needs Review''
      \<or> (\<exists>g. goal_graph st = Some g \<and> find_task task_id 0 (graph_tasks g) = None))
   \<and> (\<not> isl (verify_fixes st task_id all_fixed) \<longleftrightarrow>
        qualitator_agent st \<and> tasks_completed st task_id = Some ''Needs Review''
        \<and> (\<exists>g. goal_graph st = Some g \<and> find_task task_id 0 (graph_tasks g) \<noteq> None))
   \<and> (verify_fixes st task_id all_fixed = Inl AttributeError \<longleftrightarrow>
        qualitator_agent st \<and> tasks_completed st task_id = Some ''Needs Review''
        \<and> goal_graph st = None)
   \<and> (implement_task st task_id report = Inr st' \<and> qualitator_agent st
        \<longrightarrow> \<not> isl (verify_fixes st' task_id all_fixed))"
proof -
  have "\<not> isl (verify_fixes st' task_id all_fixed)"
    if "implement_task st task_id report = Inr st'" and "qualitator_agent st"
    using implement_task_then [OF that(1)] that(2)
    by (simp add: verify_fixes_isl)
  then have last: "implement_task st task_id report = Inr st' \<and> qualitator_agent st
        \<longrightarrow> \<not> isl (verify_fixes st' task_id all_fixed)"
    by simp
  show ?thesis
    by (intro conjI) (rule verify_fixes_ValueError, rule verify_fixes_proceeds,
        rule verify_fixes_AttributeError, rule last)
qed

theorem verify_fixes_guard_witness:
  "implement_task st_assigned ''T'' (Some [])
     = Inr (projr (implement_task st_assigned ''T'' (Some [])))
   \<and> qualitator_agent st_assigned
   \<and> \<not> isl (verify_fixes (projr (implement_task st_assigned ''T'' (Some []))) ''T''
              (Some True))
   \<and> tasks_completed st_assigned ''T'' = None
   \<and> (\<exists>e. verify_fixes st_assigned ''T'' (Some True) = Inl e \<and> is_ValueError e)"
proof -
  let ?st1 = "projr (implement_task st_assigned ''T'' (Some []))"
  have h: "implement_task st_assigned ''T'' (Some []) = Inr ?st1"
    by (simp add: implement_task_def st_assigned_def mk_manager_def mk_task_def
          graph_tasks_def str_of_id_def Let_def)
  have q: "qualitator_agent st_assigned" and n: "tasks_completed st_assigned ''T'' = None"
    by (simp_all add: st_assigned_def mk_manager_def)
  note T = verify_fixes_guard [where st = st_assigned and task_id = "''T''"
         and all_fixed = "Some True" and report = "Some []" and st' = ?st1]
  have p: "\<not> isl (verify_fixes ?st1 ''T'' (Some True))"
    by (rule T [THEN conjunct2, THEN conjunct2, THEN conjunct2, THEN mp, OF conjI [OF h q]])
  have v: "\<exists>e. verify_fixes st_assigned ''T'' (Some True) = Inl e \<and> is_ValueError e"
    unfolding T [THEN conjunct1] by (simp add: n)
  show ?thesis
    by (intro conjI) (rule h, rule q, rule p, rule n, rule v)
qed

text \<open>
  C4 as stated fails: the task \<open>T\<close> is assigned and implemented for the first time,
  which records \<open>Needs Review\<close>; \<open>verify_fixes\<close> called next, with no fix having
  run, does not abort and, on a verdict that all is fixed, marks the task
  \<open>Completed\<close>.
\<close>

theorem verify_after_first_implementation:
  "tasks_completed st_assigned ''T'' = None
   \<and> (case implement_task st_assigned ''T'' (Some []) of
         Inl e \<Rightarrow> False
       | Inr st1 \<Rightarrow>
           tasks_completed st1 ''T'' = Some ''Needs Review''
           \<and> (case verify_fixes st1 ''T'' (Some True) of
                 Inl e \<Rightarrow> False
               | Inr st2 \<Rightarrow> tasks_completed st2 ''T'' = Some ''Completed''))"
  by (simp add: implement_task_def verify_fixes_def st_assigned_def mk_manager_def mk_task_def
        graph_tasks_def str_of_id_def Let_def)

end
